theory Spec2Isabelle
  imports Main "HOL-Library.AList"
begin

section \<open>Server manager: token store, registry, build pipeline, rollback, retention\<close>

text \<open>
  A shallow embedding of the orchestration core of the server manager
  (\<^verbatim>\<open>src/unnamed/part_007\<close>). The three JSON documents (tokens, deployments, build
  history) are modelled by the value their \<^verbatim>\<open>load...\<close> function returns, so a missing
  or unreadable file is the default value the loader falls back to. ISO timestamps are
  milliseconds since the epoch (\<^verbatim>\<open>new Date(s).getTime()\<close> of a string written by
  \<^verbatim>\<open>toISOString()\<close>). Strings are \<^typ>\<open>string\<close>; a JavaScript value that may be
  \<^verbatim>\<open>undefined\<close> is an \<^typ>\<open>string option\<close>, and the empty string is falsy as well.
\<close>

subsection \<open>JavaScript helpers\<close>

definition truthy :: "string option \<Rightarrow> bool" where
  "truthy v = (case v of None \<Rightarrow> False | Some s \<Rightarrow> s \<noteq> [])"

definition or_else :: "string option \<Rightarrow> string \<Rightarrow> string" where
  "or_else v d = (case v of None \<Rightarrow> d | Some s \<Rightarrow> if s = [] then d else s)"

definition startsWith :: "string \<Rightarrow> string \<Rightarrow> bool" where
  "startsWith s p = (take (length p) s = p)"

text \<open>\<^verbatim>\<open>s.replace(p, r)\<close> with a string pattern: the first occurrence only.\<close>

fun replace_first :: "string \<Rightarrow> string \<Rightarrow> string \<Rightarrow> string" where
  "replace_first p r [] = (if p = [] then r else [])"
| "replace_first p r (c # cs) =
     (if startsWith (c # cs) p then r @ drop (length p) (c # cs)
      else c # replace_first p r cs)"

fun findIndex :: "('a \<Rightarrow> bool) \<Rightarrow> 'a list \<Rightarrow> nat option" where
  "findIndex P [] = None"
| "findIndex P (x # xs) =
     (if P x then Some 0 else map_option Suc (findIndex P xs))"

text \<open>A JavaScript \<^verbatim>\<open>Set\<close> of strings, in insertion order.\<close>

definition set_add :: "string \<Rightarrow> string list \<Rightarrow> string list" where
  "set_add x s = (if x \<in> set s then s else s @ [x])"

subsection \<open>Data model\<close>

type_synonym timestamp = int

record TokenRecord =
  tok_id :: string
  token_hash :: string
  label :: string
  role :: string
  tok_created_at :: timestamp
  last_used_at :: "timestamp option"

record InstanceRecord =
  display_name :: string
  subdomain :: string
  url :: string
  api_key :: string
  db_password :: string
  postgres_image :: string
  created_at :: timestamp
  status :: string

record Defaults =
  default_image :: "string option"
  source :: "string option"
  domain_suffix :: "string option"
  default_postgres_image :: "string option"

text \<open>
  \<^verbatim>\<open>config.instances\<close> is a plain object; the association list holds its own
  properties in the order \<^verbatim>\<open>Object.keys\<close> enumerates them.
\<close>

record DeploymentConfig =
  defaults :: Defaults
  instances :: "(string \<times> InstanceRecord) list"

record BuildRecord =
  bld_id :: string
  tag :: string
  timestamp :: timestamp
  git_commit :: string
  git_message :: string
  image_id :: "string option"
  bld_success :: bool
  bld_error :: "string option"
  duration_ms :: int
  triggered_by :: string
  instances_restarted :: "string list"

text \<open>
  The files \<^verbatim>\<open>createInstance\<close> renders, by the arguments of
  \<^verbatim>\<open>generateCompose\<close> and \<^verbatim>\<open>generateEnv\<close> (the text is a function of them).
\<close>

datatype rendered =
    ComposeFile string string
  | EnvFile string string string string timestamp

text \<open>The subprocesses the core runs through \<^verbatim>\<open>exec\<close>, with their working directory.\<close>

datatype cmd =
    DockerTag string string
  | DockerBuild string string
  | DockerInspectImage string
  | DockerImages
  | DockerRmi string
  | DockerPsGrep string
  | DockerRmForce string
  | ComposeUp string
  | ComposeRecreateApp string
  | ComposeDown bool string
  | RmRf string
  | Chmod600 string
  | GitRevParse string
  | GitLogSubject string

text \<open>
  What \<^verbatim>\<open>exec\<close> returns: \<open>out_lines\<close> is the trimmed standard output split at
  newlines (no line for an empty output), \<open>error\<close> the standard error or the
  exception's message of a failed subprocess.
\<close>

record exec_result =
  success :: bool
  out_lines :: "string list"
  error :: string

text \<open>
  The host: the three documents, the rendered files by path, the image tags of the
  repository \<^verbatim>\<open>matrx-ship\<close> (tag, image id), the number of untagged images
  (listed as \<^verbatim>\<open><none>\<close>), the container names, and the subprocesses run so far.
\<close>

record world =
  tokens :: "TokenRecord list"
  deployments :: DeploymentConfig
  builds :: "BuildRecord list"
  files :: "string \<rightharpoonup> rendered"
  images :: "(string \<times> string) list"
  untagged :: nat
  containers :: "string list"
  cmdlog :: "cmd list"

text \<open>
  What one call reads from outside the model: which subprocesses fail and with which
  message (\<^verbatim>\<open>exec\<close> catches every failure, a timeout included), the clock, the
  random strings, the output of git, the id of a freshly built image, and \<open>shell\<close>:
  what the shell makes of a command line into which a request's string with other
  characters than those of a tag or a name has been interpolated.
\<close>

record environ =
  faults :: "cmd \<Rightarrow> string option"
  now :: timestamp
  elapsed :: int
  build_tag :: string
  rand :: "nat \<Rightarrow> string"
  git_head :: string
  git_subject :: string
  built_image :: string
  shell :: "cmd \<Rightarrow> world \<Rightarrow> exec_result \<times> world"

subsection \<open>Token store\<close>

text \<open>
  \<^verbatim>\<open>hashToken\<close> (SHA-256, hex) is a parameter \<open>H\<close> of every function that hashes.
\<close>

definition verifyToken ::
  "(string \<Rightarrow> string) \<Rightarrow> timestamp \<Rightarrow> string \<Rightarrow> TokenRecord list
     \<Rightarrow> (TokenRecord \<times> TokenRecord list) option" where
  "verifyToken H t bearerToken store =
     (if bearerToken = [] then None
      else case findIndex (\<lambda>e. token_hash e = H bearerToken) store of
        None \<Rightarrow> None
      | Some i \<Rightarrow>
          (let entry = (store ! i)\<lparr>last_used_at := Some t\<rparr>
           in Some (entry, store[i := entry])))"

definition initTokenStore ::
  "(string \<Rightarrow> string) \<Rightarrow> string option \<Rightarrow> string \<Rightarrow> timestamp
     \<Rightarrow> TokenRecord list \<Rightarrow> TokenRecord list" where
  "initTokenStore H envToken rnd t store =
     (case envToken of
        None \<Rightarrow> store
      | Some e \<Rightarrow>
          if e = [] then store
          else if list_ex (\<lambda>r. token_hash r = H e) store then store
          else store @
            [\<lparr>tok_id = ''tok_'' @ rnd, token_hash = H e,
              label = ''Admin (auto-imported from MCP_BEARER_TOKEN)'',
              role = ''admin'', tok_created_at = t, last_used_at = None\<rparr>])"

subsection \<open>Auth middleware\<close>

datatype auth_result = Next "TokenRecord option" | Unauthorized string

definition authMiddleware ::
  "(string \<Rightarrow> string) \<Rightarrow> timestamp \<Rightarrow> string option \<Rightarrow> string option
     \<Rightarrow> TokenRecord list \<Rightarrow> auth_result \<times> TokenRecord list" where
  "authMiddleware H t envToken authorization store =
     (if \<not> truthy envToken then (Next None, store)
      else if \<not> truthy authorization \<or> \<not> startsWith (the authorization) ''Bearer ''
        then (Unauthorized ''Unauthorized - Bearer token required'', store)
      else
        (case verifyToken H t (replace_first ''Bearer '' [] (the authorization)) store of
           None \<Rightarrow> (Unauthorized ''Unauthorized - invalid token'', store)
         | Some (entry, store') \<Rightarrow> (Next (Some entry), store')))"

definition requireRole :: "string list \<Rightarrow> TokenRecord option \<Rightarrow> bool" where
  "requireRole roles entry =
     (case entry of
        None \<Rightarrow> True
      | Some e \<Rightarrow> role e = [] \<or> role e \<in> set roles)"

text \<open>
  A route \<^verbatim>\<open>app.METHOD(path, authMiddleware, requireRole(...), handler)\<close>: the
  handler runs only when both middlewares call \<^verbatim>\<open>next()\<close>. \<open>roles = None\<close> is a
  route without \<^verbatim>\<open>requireRole\<close>.
\<close>

datatype 'r http = Status401 string | Status403 | Served 'r

definition route ::
  "(string \<Rightarrow> string) \<Rightarrow> timestamp \<Rightarrow> string option \<Rightarrow> string list option
     \<Rightarrow> (TokenRecord option \<Rightarrow> world \<Rightarrow> 'r \<times> world)
     \<Rightarrow> string option \<Rightarrow> world \<Rightarrow> 'r http \<times> world" where
  "route H t envToken roles handler authorization w =
     (case authMiddleware H t envToken authorization (tokens w) of
        (Unauthorized msg, store) \<Rightarrow> (Status401 msg, w\<lparr>tokens := store\<rparr>)
      | (Next entry, store) \<Rightarrow>
          (let w1 = w\<lparr>tokens := store\<rparr> in
           if (case roles of None \<Rightarrow> True | Some rs \<Rightarrow> requireRole rs entry)
           then (case handler entry w1 of (r, w2) \<Rightarrow> (Served r, w2))
           else (Status403, w1)))"

subsection \<open>Token endpoints\<close>

datatype token_reply =
    TokenCreated string string
  | TokenRemoved string string
  | TokenBadRequest string
  | TokenNotFound

definition post_tokens ::
  "(string \<Rightarrow> string) \<Rightarrow> environ \<Rightarrow> string option \<Rightarrow> string option
     \<Rightarrow> TokenRecord list \<Rightarrow> token_reply \<times> TokenRecord list" where
  "post_tokens H ev lbl rl store =
     (if \<not> truthy lbl then (TokenBadRequest ''label required'', store)
      else if rl \<notin> {Some ''admin'', Some ''deployer'', Some ''viewer''}
        then (TokenBadRequest ''role must be admin, deployer, or viewer'', store)
      else
        (let rawToken = rand ev 0;
             entry = \<lparr>tok_id = ''tok_'' @ rand ev 1, token_hash = H rawToken,
                      label = the lbl, role = the rl, tok_created_at = now ev,
                      last_used_at = None\<rparr>
         in (TokenCreated (tok_id entry) rawToken, store @ [entry])))"

definition delete_token ::
  "string \<Rightarrow> TokenRecord list \<Rightarrow> token_reply \<times> TokenRecord list" where
  "delete_token i store =
     (case findIndex (\<lambda>e. tok_id e = i) store of
        None \<Rightarrow> (TokenNotFound, store)
      | Some idx \<Rightarrow>
          if length store = 1 then (TokenBadRequest ''Cannot delete the last token'', store)
          else (TokenRemoved (tok_id (store ! idx)) (label (store ! idx)),
                take idx store @ drop (Suc idx) store))"

text \<open>Every operation of the program that writes the token document.\<close>

datatype token_op =
    OpInit "string option" string timestamp
  | OpVerify string timestamp
  | OpCreate environ "string option" "string option"
  | OpDelete string

fun token_step :: "(string \<Rightarrow> string) \<Rightarrow> token_op \<Rightarrow> TokenRecord list \<Rightarrow> TokenRecord list" where
  "token_step H (OpInit envToken rnd t) store = initTokenStore H envToken rnd t store"
| "token_step H (OpVerify bearer t) store =
     (case verifyToken H t bearer store of None \<Rightarrow> store | Some (_, store') \<Rightarrow> store')"
| "token_step H (OpCreate ev lbl rl) store = snd (post_tokens H ev lbl rl store)"
| "token_step H (OpDelete i) store = snd (delete_token i store)"

subsection \<open>Name patterns\<close>

text \<open>
  Regular expressions with character classes, matched by derivatives. Both patterns of
  the program are anchored at \<^verbatim>\<open>^\<close> and \<^verbatim>\<open>$\<close> (no flags), so
  \<^verbatim>\<open>re.test(s)\<close> is a match of the whole string.
\<close>

datatype cls_item = Rng char char | Lit char

datatype rx = Nul | Eps | Cls "cls_item list" | Cat rx rx | Alt rx rx | Star rx

fun in_item :: "cls_item \<Rightarrow> char \<Rightarrow> bool" where
  "in_item (Rng a b) c = ((of_char a :: nat) \<le> of_char c \<and> (of_char c :: nat) \<le> of_char b)"
| "in_item (Lit a) c = (c = a)"

fun nullable :: "rx \<Rightarrow> bool" where
  "nullable Nul = False"
| "nullable Eps = True"
| "nullable (Cls _) = False"
| "nullable (Cat r s) = (nullable r \<and> nullable s)"
| "nullable (Alt r s) = (nullable r \<or> nullable s)"
| "nullable (Star _) = True"

fun deriv :: "char \<Rightarrow> rx \<Rightarrow> rx" where
  "deriv c Nul = Nul"
| "deriv c Eps = Nul"
| "deriv c (Cls items) = (if list_ex (\<lambda>i. in_item i c) items then Eps else Nul)"
| "deriv c (Cat r s) =
     (if nullable r then Alt (Cat (deriv c r) s) (deriv c s) else Cat (deriv c r) s)"
| "deriv c (Alt r s) = Alt (deriv c r) (deriv c s)"
| "deriv c (Star r) = Cat (deriv c r) (Star r)"

fun regex_test :: "rx \<Rightarrow> string \<Rightarrow> bool" where
  "regex_test r [] = nullable r"
| "regex_test r (c # cs) = regex_test (deriv c r) cs"

text \<open>The language of a pattern, the reference the matcher is checked against.\<close>

inductive_set star :: "string set \<Rightarrow> string set" for L :: "string set" where
  star_nil: "[] \<in> star L"
| star_app: "u \<in> L \<Longrightarrow> v \<in> star L \<Longrightarrow> u @ v \<in> star L"

fun lang :: "rx \<Rightarrow> string set" where
  "lang Nul = {}"
| "lang Eps = {[]}"
| "lang (Cls items) = {[c] | c. list_ex (\<lambda>i. in_item i c) items}"
| "lang (Cat r s) = {u @ v | u v. u \<in> lang r \<and> v \<in> lang s}"
| "lang (Alt r s) = lang r \<union> lang s"
| "lang (Star r) = star (lang r)"

definition in_cls :: "cls_item list \<Rightarrow> char \<Rightarrow> bool" where
  "in_cls items c = list_ex (\<lambda>i. in_item i c) items"

definition alnum :: "cls_item list" where
  "alnum = [Rng (CHR ''a'') (CHR ''z''), Rng (CHR ''0'') (CHR ''9'')]"

definition alnum_dash :: "cls_item list" where
  "alnum_dash = [Rng (CHR ''a'') (CHR ''z''), Rng (CHR ''0'') (CHR ''9''), Lit (CHR ''-'')]"

text \<open>\<^verbatim>\<open>/^[a-z0-9][a-z0-9-]*[a-z0-9]$/\<close>: the server's pattern (REST route and tool schema).\<close>

definition slug_re :: rx where
  "slug_re = Cat (Cls alnum) (Cat (Star (Cls alnum_dash)) (Cls alnum))"

text \<open>\<^verbatim>\<open>/^[a-z0-9]$/\<close>: the second pattern of the command-line client.\<close>

definition single_re :: rx where
  "single_re = Cls alnum"

text \<open>
  The client's check in \<^verbatim>\<open>handleInit\<close> (\<^verbatim>\<open>src/unnamed/part_000\<close>), made before
  it calls the server's \<^verbatim>\<open>app_create\<close>: the name is refused when it matches neither
  pattern.
\<close>

definition cli_valid_project_name :: "string \<Rightarrow> bool" where
  "cli_valid_project_name projectName =
     (\<not> (\<not> regex_test slug_re projectName \<and> \<not> regex_test single_re projectName))"

subsection \<open>Plain objects as registries\<close>

text \<open>
  \<^verbatim>\<open>config.instances[name]\<close> reads an own property or, failing that, a property
  inherited from \<^verbatim>\<open>Object.prototype\<close> (the object comes from \<^verbatim>\<open>JSON.parse\<close> or an
  object literal). Own values are instance records and the inherited ones are functions
  or objects, all truthy.
\<close>

definition object_prototype_keys :: "string list" where
  "object_prototype_keys =
     [''constructor'', ''hasOwnProperty'', ''isPrototypeOf'', ''propertyIsEnumerable'',
      ''toLocaleString'', ''toString'', ''valueOf'', ''__proto__'',
      ''__defineGetter__'', ''__defineSetter__'', ''__lookupGetter__'', ''__lookupSetter__'']"

definition has_instance :: "(string \<times> InstanceRecord) list \<Rightarrow> string \<Rightarrow> bool" where
  "has_instance insts name =
     (map_of insts name \<noteq> None \<or> name \<in> set object_prototype_keys)"

definition is_digit :: "char \<Rightarrow> bool" where
  "is_digit c = ((48::nat) \<le> of_char c \<and> (of_char c :: nat) \<le> 57)"

definition digits_val :: "string \<Rightarrow> nat" where
  "digits_val s = foldl (\<lambda>n c. 10 * n + (of_char c - 48)) 0 s"

text \<open>
  Integer-like keys (canonical decimal strings below \<open>2^32 - 1\<close>) are enumerated first,
  in ascending order; the other keys follow in insertion order.
\<close>

definition is_array_index :: "string \<Rightarrow> bool" where
  "is_array_index s =
     (s \<noteq> [] \<and> list_all is_digit s \<and> (s = ''0'' \<or> hd s \<noteq> CHR ''0'')
      \<and> digits_val s < 4294967295)"

fun js_put :: "string \<Rightarrow> 'v \<Rightarrow> (string \<times> 'v) list \<Rightarrow> (string \<times> 'v) list" where
  "js_put k v [] = [(k, v)]"
| "js_put k v ((k', v') # xs) =
     (if k = k' then (k, v) # xs
      else if is_array_index k
              \<and> (\<not> is_array_index k' \<or> digits_val k < digits_val k')
        then (k, v) # (k', v') # xs
      else (k', v') # js_put k v xs)"

subsection \<open>Subprocesses\<close>

definition HOST_SRV :: string where "HOST_SRV = ''/host-srv''"
definition HOST_DATA :: string where "HOST_DATA = ''/host-data''"
definition APPS_DIR :: string where "APPS_DIR = HOST_SRV @ ''/apps''"
definition DOMAIN_SUFFIX :: string where "DOMAIN_SUFFIX = ''dev.codematrx.com''"

text \<open>\<^verbatim>\<open>path.join\<close> of a directory and one name without separators or dots.\<close>

definition join :: "string \<Rightarrow> string \<Rightarrow> string" where
  "join d f = d @ ''/'' @ f"

text \<open>\<^verbatim>\<open>resolveHostPath\<close> of an absolute path that is already normalised.\<close>

definition resolveHostPath :: "string \<Rightarrow> string" where
  "resolveHostPath userPath =
     (if startsWith userPath ''/srv/'' \<or> userPath = ''/srv''
        then HOST_SRV @ drop 4 userPath
      else if startsWith userPath ''/data/'' \<or> userPath = ''/data''
        then HOST_DATA @ drop 5 userPath
      else userPath)"

definition ok :: "string list \<Rightarrow> exec_result" where
  "ok ls = \<lparr>success = True, out_lines = ls, error = []\<rparr>"

definition failed :: "string \<Rightarrow> exec_result" where
  "failed msg = \<lparr>success = False, out_lines = [], error = msg\<rparr>"

fun join_lines :: "string list \<Rightarrow> string" where
  "join_lines [] = []"
| "join_lines [l] = l"
| "join_lines (l # ls) = l @ [CHR 0x0A] @ join_lines ls"

text \<open>\<^verbatim>\<open>result.output\<close>, the trimmed text.\<close>

definition output_text :: "exec_result \<Rightarrow> string" where
  "output_text r = join_lines (out_lines r)"

definition instance_containers :: "string \<Rightarrow> string list" where
  "instance_containers name = [''ship-'' @ name, ''db-'' @ name]"

definition compose_file :: "string \<Rightarrow> string" where
  "compose_file name = join (join APPS_DIR name) ''docker-compose.yml''"

text \<open>
  What a subprocess does to the host when its command line is the intended one (see
  \<open>plain_cmd\<close> below) and it does not fail for a reason of its own (\<open>faults\<close>). The
  compose commands take the instance whose directory is their working directory. A
  failed subprocess leaves the modelled host as it was.
\<close>

fun run :: "environ \<Rightarrow> cmd \<Rightarrow> world \<Rightarrow> exec_result \<times> world" where
  "run ev (DockerTag src dst) w =
     (case map_of (images w) src of
        None \<Rightarrow> (failed ''No such image'', w)
      | Some i \<Rightarrow> (ok [], w\<lparr>images := AList.update dst i (images w)\<rparr>))"
| "run ev (DockerBuild t src) w =
     (ok [], w\<lparr>images := AList.update t (built_image ev)
                            (AList.update ''latest'' (built_image ev) (images w))\<rparr>)"
| "run ev (DockerInspectImage t) w =
     (case map_of (images w) t of
        None \<Rightarrow> (failed ''No such image'', w)
      | Some i \<Rightarrow> (ok [''sha256:'' @ i], w))"
| "run ev DockerImages w =
     (ok (map fst (images w) @ replicate (untagged w) ''<none>''), w)"
| "run ev (DockerRmi t) w =
     (case map_of (images w) t of
        None \<Rightarrow> (failed ''No such image'', w)
      | Some i \<Rightarrow> (ok [''Untagged: matrx-ship:'' @ t], w\<lparr>images := AList.delete t (images w)\<rparr>))"
| "run ev (DockerPsGrep name) w =
     (case filter (\<lambda>c. c \<in> set (instance_containers name)) (containers w) of
        [] \<Rightarrow> (failed ''Command failed'', w)
      | hits \<Rightarrow> (ok hits, w))"
| "run ev (DockerRmForce name) w =
     (ok [], w\<lparr>containers := filter (\<lambda>c. c \<notin> set (instance_containers name)) (containers w)\<rparr>)"
| "run ev (ComposeUp name) w =
     (if files w (compose_file name) = None then (failed ''no configuration file provided'', w)
      else (ok [], w\<lparr>containers := List.union (containers w) (instance_containers name)\<rparr>))"
| "run ev (ComposeRecreateApp name) w =
     (if files w (compose_file name) = None then (failed ''no configuration file provided'', w)
      else (ok [], w\<lparr>containers := List.union (containers w) (instance_containers name)\<rparr>))"
| "run ev (ComposeDown volumes name) w =
     (if files w (compose_file name) = None then (failed ''no configuration file provided'', w)
      else (ok [], w\<lparr>containers :=
                        filter (\<lambda>c. c \<notin> set (instance_containers name)) (containers w)\<rparr>))"
| "run ev (RmRf dir) w =
     (ok [], w\<lparr>files := (\<lambda>p. if startsWith p (dir @ ''/'') then None else files w p)\<rparr>)"
| "run ev (Chmod600 p) w =
     (if files w p = None then (failed ''No such file or directory'', w) else (ok [], w))"
| "run ev (GitRevParse src) w = (ok [git_head ev], w)"
| "run ev (GitLogSubject src) w = (ok [git_subject ev], w)"

text \<open>
  \<^verbatim>\<open>exec\<close> hands one string to \<^verbatim>\<open>sh -c\<close>, and the program builds that string by
  interpolation. The tag of a rollback request and the instance name of a removal reach
  it unvalidated (the name of a creation is validated by its routes only). A word of
  letters, digits, \<open>_\<close>, \<open>.\<close> and \<open>-\<close> (the characters of an image tag) stays one
  word of the command line, and so does a path of such words; with any other character
  the command line is not the intended one, and what runs is up to the shell. The tags
  the runtime lists, the generated build tag and the configured source path are taken as
  single words.
\<close>

definition plain_char :: "char \<Rightarrow> bool" where
  "plain_char c =
     (let n = (of_char c :: nat) in
      (97 \<le> n \<and> n \<le> 122) \<or> (65 \<le> n \<and> n \<le> 90) \<or> (48 \<le> n \<and> n \<le> 57)
      \<or> c = CHR ''_'' \<or> c = CHR ''.'' \<or> c = CHR ''-'')"

definition plain_word :: "string \<Rightarrow> bool" where
  "plain_word s = list_all plain_char s"

definition plain_path :: "string \<Rightarrow> bool" where
  "plain_path s = list_all (\<lambda>c. plain_char c \<or> c = CHR ''/'') s"

fun plain_cmd :: "cmd \<Rightarrow> bool" where
  "plain_cmd (DockerTag src dst) = (plain_word src \<and> plain_word dst)"
| "plain_cmd (DockerInspectImage t) = plain_word t"
| "plain_cmd (DockerPsGrep name) = plain_word name"
| "plain_cmd (DockerRmForce name) = plain_word name"
| "plain_cmd (RmRf dir) = plain_path dir"
| "plain_cmd (Chmod600 p) = plain_path p"
| "plain_cmd _ = True"

definition exec :: "environ \<Rightarrow> cmd \<Rightarrow> world \<Rightarrow> exec_result \<times> world" where
  "exec ev c w =
     (let w1 = w\<lparr>cmdlog := cmdlog w @ [c]\<rparr> in
      if \<not> plain_cmd c then shell ev c w1
      else case faults ev c of
        Some msg \<Rightarrow> (failed msg, w1)
      | None \<Rightarrow> run ev c w1)"

subsection \<open>Provisioning and removal\<close>

datatype create_error = AlreadyExists string | ContainerExists string

text \<open>
  The reply of \<^verbatim>\<open>createInstance\<close>: the error, or \<open>success\<close>, \<open>instance\<close>,
  \<open>url\<close>, \<open>admin_url\<close> and \<open>api_key\<close> (the other fields are constants of the name).
\<close>

datatype create_reply =
    CreateError create_error
  | Created bool string string string string

definition createInstance ::
  "environ \<Rightarrow> string \<Rightarrow> string \<Rightarrow> string option \<Rightarrow> string option \<Rightarrow> world
     \<Rightarrow> create_reply \<times> world" where
  "createInstance ev name displayName apiKey pgImage w =
     (let config = deployments w in
      if has_instance (instances config) name then (CreateError (AlreadyExists name), w)
      else
        (case exec ev (DockerPsGrep name) w of (nameCheck, w1) \<Rightarrow>
         if success nameCheck \<and> output_text nameCheck \<noteq> []
         then (CreateError (ContainerExists name), w1)
         else
           (let dbPassword = rand ev 0;
                finalApiKey = or_else apiKey (''sk_ship_'' @ rand ev 1);
                instanceDir = join APPS_DIR name;
                pg = or_else pgImage
                       (or_else (default_postgres_image (defaults config)) ''postgres:17-alpine'');
                w2 = w1\<lparr>files := (files w1)
                        (join instanceDir ''docker-compose.yml'' \<mapsto> ComposeFile name pg,
                         join instanceDir ''.env'' \<mapsto>
                           EnvFile name displayName dbPassword finalApiKey (now ev))\<rparr>;
                w3 = snd (exec ev (Chmod600 (join instanceDir ''.env'')) w2);
                entry = \<lparr>display_name = displayName, subdomain = ''ship-'' @ name,
                         url = ''https://ship-'' @ name @ ''.'' @ DOMAIN_SUFFIX,
                         api_key = finalApiKey, db_password = dbPassword,
                         postgres_image = pg, created_at = now ev, status = ''created''\<rparr>;
                config1 = config\<lparr>instances := js_put name entry (instances config)\<rparr>;
                w4 = w3\<lparr>deployments := config1\<rparr>
            in case exec ev (ComposeUp name) w4 of (startResult, w5) \<Rightarrow>
               (Created (success startResult) name
                  (''https://ship-'' @ name @ ''.'' @ DOMAIN_SUFFIX)
                  (''https://ship-'' @ name @ ''.'' @ DOMAIN_SUFFIX @ ''/admin'')
                  finalApiKey,
                if success startResult
                then w5\<lparr>deployments :=
                         config1\<lparr>instances :=
                           js_put name (entry\<lparr>status := ''running''\<rparr>) (instances config1)\<rparr>\<rparr>
                else w5))))"

text \<open>The handler of \<^verbatim>\<open>POST /api/instances\<close>, by status code.\<close>

datatype post_reply = Http400 string | Http409 create_error | Http201 create_reply

definition post_instances ::
  "environ \<Rightarrow> string option \<Rightarrow> string option \<Rightarrow> string option \<Rightarrow> string option \<Rightarrow> world
     \<Rightarrow> post_reply \<times> world" where
  "post_instances ev name displayName apiKey pgImage w =
     (if \<not> truthy name \<or> \<not> truthy displayName
        then (Http400 ''name and display_name required'', w)
      else if \<not> regex_test slug_re (the name) then (Http400 ''Invalid name format'', w)
      else
        (case createInstance ev (the name) (the displayName) apiKey pgImage w of
           (CreateError e, w1) \<Rightarrow> (Http409 e, w1)
         | (r, w1) \<Rightarrow> (Http201 r, w1)))"

text \<open>
  The tool \<^verbatim>\<open>app_create\<close>: its schema refuses a name that does not match the
  pattern before the handler runs.
\<close>

definition app_create ::
  "environ \<Rightarrow> string \<Rightarrow> string \<Rightarrow> string option \<Rightarrow> string option \<Rightarrow> world
     \<Rightarrow> create_reply option \<times> world" where
  "app_create ev name displayName apiKey pgImage w =
     (if \<not> regex_test slug_re name then (None, w)
      else (case createInstance ev name displayName apiKey pgImage w of
              (r, w1) \<Rightarrow> (Some r, w1)))"

text \<open>
  The reply of \<^verbatim>\<open>removeInstance\<close>: the error, or \<open>removed\<close>, \<open>data_deleted\<close>
  and the two results (\<open>compose_down\<close>, \<open>directory_deleted\<close>) under \<open>success: true\<close>.
\<close>

datatype remove_reply =
    NotFound string
  | Removed string bool exec_result "exec_result option"

definition removeInstance ::
  "environ \<Rightarrow> string \<Rightarrow> bool \<Rightarrow> world \<Rightarrow> remove_reply \<times> world" where
  "removeInstance ev name delete_data w =
     (let config = deployments w in
      if \<not> has_instance (instances config) name then (NotFound name, w)
      else
        (let instanceDir = join APPS_DIR name;
             (compose_down, w1) =
               (if files w (join instanceDir ''docker-compose.yml'') \<noteq> None
                then exec ev (ComposeDown delete_data name) w
                else (ok [''Containers removed directly''],
                      snd (exec ev (DockerRmForce name) w)));
             (directory_deleted, w2) =
               (if delete_data
                then (case exec ev (RmRf instanceDir) w1 of (r, w') \<Rightarrow> (Some r, w'))
                else (None, w1))
         in (Removed name delete_data compose_down directory_deleted,
             w2\<lparr>deployments := config\<lparr>instances := AList.delete name (instances config)\<rparr>\<rparr>)))"

subsection \<open>Build history and retention\<close>

definition recordBuild :: "BuildRecord \<Rightarrow> world \<Rightarrow> world" where
  "recordBuild entry w = w\<lparr>builds := entry # builds w\<rparr>"

definition ONE_WEEK :: int where "ONE_WEEK = 7 * 24 * 60 * 60 * 1000"
definition ONE_MONTH :: int where "ONE_MONTH = 30 * 24 * 60 * 60 * 1000"

definition successfulBuilds :: "BuildRecord list \<Rightarrow> BuildRecord list" where
  "successfulBuilds history =
     filter (\<lambda>b. bld_success b \<and> tag b \<noteq> [] \<and> \<not> startsWith (tag b) ''rollback'') history"

text \<open>
  The test of the \<open>k\<close>-th window of length \<open>len\<close> counted back from \<open>t\<close>:
  \<^verbatim>\<open>t >= now - (k + 1) * len && t < now - k * len\<close>.
\<close>

definition in_window :: "int \<Rightarrow> timestamp \<Rightarrow> nat \<Rightarrow> BuildRecord \<Rightarrow> bool" where
  "in_window len t k b =
     (t - (int k + 1) * len \<le> timestamp b \<and> timestamp b < t - int k * len)"

definition keep_windows ::
  "int \<Rightarrow> nat \<Rightarrow> timestamp \<Rightarrow> BuildRecord list \<Rightarrow> string list \<Rightarrow> string list" where
  "keep_windows len n t sb s =
     fold (\<lambda>k acc. case find (in_window len t k) sb of
                      None \<Rightarrow> acc
                    | Some b \<Rightarrow> set_add (tag b) acc) [0..<n] s"

definition tagsToKeep :: "timestamp \<Rightarrow> BuildRecord list \<Rightarrow> string list" where
  "tagsToKeep t history =
     (let sb = successfulBuilds history;
          last3 = fold (\<lambda>b acc. set_add (tag b) acc) (take 3 sb)
                    [''latest'', ''rollback'', ''pre-rollback'']
      in keep_windows ONE_MONTH 3 t sb (keep_windows ONE_WEEK 4 t sb last3))"

fun remove_loop ::
  "environ \<Rightarrow> string list \<Rightarrow> string list \<Rightarrow> string list \<Rightarrow> world
     \<Rightarrow> string list \<times> world" where
  "remove_loop ev keep [] removed w = (removed, w)"
| "remove_loop ev keep (t # ts) removed w =
     (if t = ''<none>'' \<or> t \<in> set keep then remove_loop ev keep ts removed w
      else (case exec ev (DockerRmi t) w of (rm, w1) \<Rightarrow>
              remove_loop ev keep ts (if success rm then removed @ [t] else removed) w1))"

record cleanup_result =
  kept :: "string list"
  removed :: "string list"
  total_tags_before :: nat
  total_tags_after :: nat

text \<open>\<^verbatim>\<open>allTags\<close>: the listing split at newlines, or nothing when the listing fails.\<close>

definition all_tags_of :: "exec_result \<Rightarrow> string list" where
  "all_tags_of r = (if success r then filter (\<lambda>l. l \<noteq> []) (out_lines r) else [])"

definition cleanupBuildImages :: "environ \<Rightarrow> world \<Rightarrow> cleanup_result \<times> world" where
  "cleanupBuildImages ev w =
     (let keep = tagsToKeep (now ev) (builds w) in
      case exec ev DockerImages w of (allTagsResult, w1) \<Rightarrow>
        (let allTags = all_tags_of allTagsResult in
         case remove_loop ev keep allTags [] w1 of (rm, w2) \<Rightarrow>
           (\<lparr>kept = filter (\<lambda>t. t \<in> set allTags) keep, removed = rm,
             total_tags_before = length allTags,
             total_tags_after = length allTags - length rm\<rparr>, w2)))"

text \<open>The tags the sweep reads from the runtime on the host \<open>w\<close>.\<close>

definition listed_tags :: "environ \<Rightarrow> world \<Rightarrow> string list" where
  "listed_tags ev w = all_tags_of (fst (exec ev DockerImages w))"

text \<open>
  The calendar month of a timestamp, as (year, month) in UTC (proleptic Gregorian
  calendar, from the day count since 1970-01-01). It follows the wording of the
  specification's retention rule (one tag per calendar month), not the program, whose
  sweep has no calendar arithmetic; it only serves to state where the two differ.
\<close>

definition calendar_month :: "timestamp \<Rightarrow> int \<times> int" where
  "calendar_month t =
     (let z = t div 86400000 + 719468;
          era = z div 146097;
          doe = z mod 146097;
          yoe = (doe - doe div 1460 + doe div 36524 - doe div 146096) div 365;
          doy = doe - (365 * yoe + yoe div 4 - yoe div 100);
          mp = (5 * doy + 2) div 153;
          m = (if mp < 10 then mp + 3 else mp - 9)
      in (yoe + era * 400 + (if m \<le> 2 then 1 else 0), m))"

subsection \<open>Build pipeline\<close>

definition short_id :: "exec_result \<Rightarrow> string option" where
  "short_id r =
     (let s = take 12 (replace_first ''sha256:'' [] (output_text r))
      in if s = [] then None else Some s)"

datatype restart_outcome = TargetNotFound | Ran exec_result

fun restart_targets ::
  "environ \<Rightarrow> (string \<times> InstanceRecord) list \<Rightarrow> string list \<Rightarrow> world
     \<Rightarrow> (string \<times> restart_outcome) list \<times> world" where
  "restart_targets ev insts [] w = ([], w)"
| "restart_targets ev insts (t # ts) w =
     (if \<not> has_instance insts t
      then (case restart_targets ev insts ts w of (rs, w1) \<Rightarrow> ((t, TargetNotFound) # rs, w1))
      else (case exec ev (ComposeRecreateApp t) w of (r, w1) \<Rightarrow>
            case restart_targets ev insts ts w1 of (rs, w2) \<Rightarrow> ((t, Ran r) # rs, w2)))"

text \<open>
  The reply of \<^verbatim>\<open>rebuildInstances\<close>: the failed build's error, or \<open>image_rebuilt\<close>,
  \<open>build_tag\<close>, \<open>image_id\<close>, \<open>instances_restarted\<close> and \<open>results.restarts\<close>.
\<close>

datatype rebuild_reply =
    BuildFailed string
  | Rebuilt bool "string option" "string option" "string list"
      "(string \<times> restart_outcome) list"

definition source_path :: "world \<Rightarrow> string" where
  "source_path w =
     resolveHostPath (or_else (source (defaults (deployments w))) ''/srv/projects/matrx-ship'')"

definition build_entry ::
  "environ \<Rightarrow> exec_result \<Rightarrow> exec_result \<Rightarrow> string option \<Rightarrow> bool \<Rightarrow> string option
     \<Rightarrow> string option \<Rightarrow> string list \<Rightarrow> BuildRecord" where
  "build_entry ev gitCommit gitLog imageId succ err triggeredBy restarted =
     \<lparr>bld_id = ''bld_'' @ rand ev 0, tag = build_tag ev, timestamp = now ev,
      git_commit = or_else (Some (output_text gitCommit)) ''unknown'',
      git_message = or_else (Some (output_text gitLog)) ''unknown'',
      image_id = imageId, bld_success = succ, bld_error = err,
      duration_ms = elapsed ev,
      triggered_by = or_else triggeredBy ''unknown'',
      instances_restarted = restarted\<rparr>"

text \<open>
  Step 2 of \<^verbatim>\<open>rebuildInstances\<close> and what follows it. The retention sweep reads the
  clock after the build, at \<open>now + elapsed\<close>.
\<close>

definition restart_and_record ::
  "environ \<Rightarrow> DeploymentConfig \<Rightarrow> string option \<Rightarrow> bool \<Rightarrow> string option
     \<Rightarrow> exec_result \<Rightarrow> exec_result \<Rightarrow> string option \<Rightarrow> world \<Rightarrow> rebuild_reply \<times> world" where
  "restart_and_record ev config name skip_build triggeredBy gitCommit gitLog imageId w =
     (let targets = (if truthy name then [the name] else map fst (instances config)) in
      case restart_targets ev (instances config) targets w of (restarts, w1) \<Rightarrow>
        (Rebuilt (\<not> skip_build) (if skip_build then None else Some (build_tag ev)) imageId
           targets restarts,
         if \<not> skip_build
         then snd (cleanupBuildImages (ev\<lparr>now := now ev + elapsed ev\<rparr>)
                (recordBuild
                   (build_entry ev gitCommit gitLog imageId True None triggeredBy targets) w1))
         else w1))"

definition rebuildInstances ::
  "environ \<Rightarrow> string option \<Rightarrow> bool \<Rightarrow> string option \<Rightarrow> world \<Rightarrow> rebuild_reply \<times> world" where
  "rebuildInstances ev name skip_build triggeredBy w =
     (let config = deployments w;
          src = source_path w in
      case exec ev (GitRevParse src) w of (gitCommit, w1) \<Rightarrow>
      case exec ev (GitLogSubject src) w1 of (gitLog, w2) \<Rightarrow>
        if \<not> skip_build then
          (let w3 = snd (exec ev (DockerTag ''latest'' ''rollback'') w2) in
           case exec ev (DockerBuild (build_tag ev) src) w3 of (build, w4) \<Rightarrow>
             if \<not> success build then
               (BuildFailed (error build),
                recordBuild
                  (build_entry ev gitCommit gitLog None False (Some (error build))
                     triggeredBy []) w4)
             else
               (case exec ev (DockerInspectImage ''latest'') w4 of (imgInspect, w5) \<Rightarrow>
                  restart_and_record ev config name skip_build triggeredBy gitCommit gitLog
                    (short_id imgInspect) w5))
        else restart_and_record ev config name skip_build triggeredBy gitCommit gitLog None w2)"

subsection \<open>Rollback\<close>

datatype rollback_error = TagRequired | TagNotFound string | RetagFailed string

fun restart_all ::
  "environ \<Rightarrow> string list \<Rightarrow> world \<Rightarrow> (string \<times> exec_result) list \<times> world" where
  "restart_all ev [] w = ([], w)"
| "restart_all ev (t # ts) w =
     (case exec ev (ComposeRecreateApp t) w of (r, w1) \<Rightarrow>
      case restart_all ev ts w1 of (rs, w2) \<Rightarrow> ((t, r) # rs, w2))"

text \<open>
  The reply of \<^verbatim>\<open>rollbackBuild\<close>: the error, or \<open>rolled_back_to\<close>, \<open>image_id\<close>,
  \<open>instances_restarted\<close> and \<open>restarts\<close>.
\<close>

datatype rollback_reply =
    RollbackError rollback_error
  | RolledBack string "string option" "string list" "(string \<times> exec_result) list"

definition rollbackBuild :: "environ \<Rightarrow> string option \<Rightarrow> world \<Rightarrow> rollback_reply \<times> world" where
  "rollbackBuild ev tg w =
     (if \<not> truthy tg then (RollbackError TagRequired, w)
      else
        (case exec ev (DockerInspectImage (the tg)) w of (check, w1) \<Rightarrow>
         if \<not> success check then (RollbackError (TagNotFound (the tg)), w1)
         else
           (let w2 = snd (exec ev (DockerTag ''latest'' ''pre-rollback'') w1) in
            case exec ev (DockerTag (the tg) ''latest'') w2 of (retag, w3) \<Rightarrow>
              if \<not> success retag then (RollbackError (RetagFailed (error retag)), w3)
              else
                (let targets = map fst (instances (deployments w3)) in
                 case restart_all ev targets w3 of (restarts, w4) \<Rightarrow>
                   (RolledBack (the tg) (short_id check) targets restarts,
                    recordBuild
                      \<lparr>bld_id = ''bld_'' @ rand ev 0, tag = ''rollback-to-'' @ the tg,
                       timestamp = now ev, git_commit = ''rollback'',
                       git_message = ''Rollback to image tag: '' @ the tg,
                       image_id = short_id check, bld_success = True, bld_error = None,
                       duration_ms = 0, triggered_by = ''rollback'',
                       instances_restarted = targets\<rparr> w4)))))"

subsection \<open>Concrete hosts for the examples\<close>

definition no_faults :: "cmd \<Rightarrow> string option" where
  "no_faults c = None"

definition ev0 :: environ where
  "ev0 = \<lparr>faults = no_faults, now = 1773662400000, elapsed = 90000,
          build_tag = ''20260316-120000'', rand = (\<lambda>n. if n = 0 then ''a1b2c3'' else ''d4e5f6''),
          git_head = ''abc1234'', git_subject = ''Fix login'', built_image = ''feedfacecafe0001'',
          shell = (\<lambda>c w. (failed ''sh: 1: Syntax error'', w))\<rparr>"

definition no_defaults :: Defaults where
  "no_defaults = \<lparr>default_image = None, source = None, domain_suffix = None,
                  default_postgres_image = None\<rparr>"

definition empty_world :: world where
  "empty_world = \<lparr>tokens = [], deployments = \<lparr>defaults = no_defaults, instances = []\<rparr>,
                  builds = [], files = Map.empty, images = [], untagged = 0,
                  containers = [], cmdlog = []\<rparr>"

definition tok_a :: TokenRecord where
  "tok_a = \<lparr>tok_id = ''tok_a'', token_hash = ''hash-a'', label = ''ops'', role = ''admin'',
            tok_created_at = 0, last_used_at = None\<rparr>"

definition tok_b :: TokenRecord where
  "tok_b = \<lparr>tok_id = ''tok_b'', token_hash = ''hash-b'', label = ''ci'', role = ''deployer'',
            tok_created_at = 0, last_used_at = None\<rparr>"

text \<open>A stand-in for the hash in the examples: it maps the raw token \<open>x\<close> to \<open>hash-x\<close>.\<close>

definition toy_hash :: "string \<Rightarrow> string" where
  "toy_hash s = ''hash-'' @ s"

definition inst_acme :: InstanceRecord where
  "inst_acme = \<lparr>display_name = ''Acme Corp'', subdomain = ''ship-acme'',
                 url = ''https://ship-acme.dev.codematrx.com'', api_key = ''sk_ship_1'',
                 db_password = ''pw1'', postgres_image = ''postgres:17-alpine'',
                 created_at = 1772000000000, status = ''running''\<rparr>"

text \<open>
  A host with one instance, \<open>acme\<close>, its two rendered files and containers, and three
  image tags.
\<close>

definition w_acme :: world where
  "w_acme = \<lparr>tokens = [tok_a],
             deployments = \<lparr>defaults = no_defaults, instances = [(''acme'', inst_acme)]\<rparr>,
             builds = [],
             files = [''/host-srv/apps/acme/docker-compose.yml'' \<mapsto>
                        ComposeFile ''acme'' ''postgres:17-alpine'',
                      ''/host-srv/apps/acme/.env'' \<mapsto>
                        EnvFile ''acme'' ''Acme Corp'' ''pw1'' ''sk_ship_1'' 1772000000000],
             images = [(''latest'', ''img-new''), (''20260301-090000'', ''img-old''),
                       (''pre-rollback'', ''img-pre'')],
             untagged = 0,
             containers = [''ship-acme'', ''db-acme''], cmdlog = []\<rparr>"

definition ev_build_fails :: environ where
  "ev_build_fails =
     ev0\<lparr>faults := (\<lambda>c. if c = DockerBuild ''20260316-120000'' ''/host-srv/projects/matrx-ship''
                         then Some ''exit code 1'' else None)\<rparr>"

text \<open>
  What \<^verbatim>\<open>sh -c\<close> does with \<^verbatim>\<open>docker inspect matrx-ship:nope;true ...\<close> and
  \<^verbatim>\<open>docker tag matrx-ship:nope;true matrx-ship:latest\<close>: the docker command fails,
  then \<^verbatim>\<open>true\<close> runs with the rest of the line as its arguments, and the exit status
  is 0. No image tag is touched.
\<close>

definition ev_injected :: environ where
  "ev_injected = ev0\<lparr>shell := (\<lambda>c w. (ok [], w))\<rparr>"

definition ev_retag_fails :: environ where
  "ev_retag_fails =
     ev0\<lparr>faults := (\<lambda>c. if c = DockerTag ''20260301-090000'' ''latest''
                         then Some ''daemon timeout'' else None)\<rparr>"

definition mk_build :: "string \<Rightarrow> timestamp \<Rightarrow> BuildRecord" where
  "mk_build tg ts =
     \<lparr>bld_id = ''bld_'' @ tg, tag = tg, timestamp = ts, git_commit = ''abc1234'',
      git_message = ''Fix login'', image_id = Some (''img-'' @ tg), bld_success = True,
      bld_error = None, duration_ms = 60000, triggered_by = ''api'',
      instances_restarted = [''acme'']\<rparr>"

text \<open>
  Five successful builds, newest first: on 16, 15 and 14 March 2026 at 11:00 UTC, and on
  16 and 15 January 2026 at 00:00 UTC. The clock of \<open>ev0\<close> is 16 March 2026, 12:00 UTC.
\<close>

definition history5 :: "BuildRecord list" where
  "history5 =
     [mk_build ''20260316-110000'' 1773658800000,
      mk_build ''20260315-110000'' 1773572400000,
      mk_build ''20260314-110000'' 1773486000000,
      mk_build ''20260116-000000'' 1768521600000,
      mk_build ''20260115-000000'' 1768435200000]"

definition w_hist :: world where
  "w_hist = w_acme\<lparr>builds := history5,
                   images := [(''latest'', ''img-20260316-110000''),
                              (''20260316-110000'', ''img-20260316-110000''),
                              (''20260116-000000'', ''img-20260116-000000''),
                              (''20260115-000000'', ''img-20260115-000000''),
                              (''20251201-000000'', ''img-20251201-000000'')]\<rparr>"

definition ev_rmi_fails :: environ where
  "ev_rmi_fails =
     ev0\<lparr>faults := (\<lambda>c. if c = DockerRmi ''20251201-000000''
                         then Some ''image is being used'' else None)\<rparr>"

section \<open>Properties\<close>

subsection \<open>Token store and auth gate\<close>

lemma findIndex_None_iff: "findIndex P xs = None \<longleftrightarrow> (\<forall>x \<in> set xs. \<not> P x)"
  by (induction xs) auto

lemma findIndex_Some:
  "findIndex P xs = Some i \<Longrightarrow> i < length xs \<and> P (xs ! i)"
  by (induction xs arbitrary: i) (auto split: if_splits)

lemma findIndex_Some_ex: "(\<exists>i. findIndex P xs = Some i) \<longleftrightarrow> (\<exists>x \<in> set xs. P x)"
  using findIndex_None_iff [of P xs] by (cases "findIndex P xs") auto

lemma remove_nth_no_hash:
  assumes "distinct (map f xs)" and "i < length xs"
  shows "\<forall>x \<in> set (take i xs @ drop (Suc i) xs). f x \<noteq> f (xs ! i)"
proof -
  have "xs = take i xs @ xs ! i # drop (Suc i) xs"
    using assms(2) by (rule id_take_nth_drop)
  then have "distinct (map f (take i xs @ xs ! i # drop (Suc i) xs))"
    using assms(1) by simp
  then show ?thesis by (auto simp: image_iff)
qed

lemma verifyToken_None_iff:
  "verifyToken H t b store = None \<longleftrightarrow> (b = [] \<or> (\<forall>e \<in> set store. token_hash e \<noteq> H b))"
proof (cases "findIndex (\<lambda>e. token_hash e = H b) store")
  case None
  then have "\<forall>e \<in> set store. token_hash e \<noteq> H b"
    using findIndex_None_iff [of "\<lambda>e. token_hash e = H b" store] by simp
  with None show ?thesis by (simp add: verifyToken_def)
next
  case (Some i)
  then have "\<exists>e \<in> set store. token_hash e = H b"
    using findIndex_Some_ex [of "\<lambda>e. token_hash e = H b" store] by blast
  with Some show ?thesis by (auto simp: verifyToken_def Let_def)
qed

lemma verifyToken_length:
  "verifyToken H t b store = Some (e, store') \<Longrightarrow> length store' = length store"
  by (auto simp: verifyToken_def Let_def split: option.splits if_splits)

lemma replace_first_prefix: "startsWith s p \<Longrightarrow> replace_first p [] s = drop (length p) s"
  by (cases s) (auto simp: startsWith_def)

lemma token_step_nonempty: "store \<noteq> [] \<Longrightarrow> token_step H op store \<noteq> []"
proof (cases op)
  case (OpInit e r t)
  assume "store \<noteq> []"
  then show ?thesis using OpInit by (auto simp: initTokenStore_def split: option.splits)
next
  case (OpVerify b t)
  assume "store \<noteq> []"
  then show ?thesis using OpVerify
    by (auto split: option.splits dest: verifyToken_length)
next
  case (OpCreate ev l r)
  assume "store \<noteq> []"
  then show ?thesis using OpCreate by (auto simp: post_tokens_def Let_def)
next
  case (OpDelete i)
  assume ne: "store \<noteq> []"
  show ?thesis
  proof (cases "findIndex (\<lambda>e. tok_id e = i) store")
    case None
    then show ?thesis using OpDelete ne by (simp add: delete_token_def)
  next
    case (Some idx)
    then have "idx < length store" by (auto dest: findIndex_Some)
    then have "length store \<noteq> 1 \<Longrightarrow> take idx store @ drop (Suc idx) store \<noteq> []"
      by (cases store) auto
    then show ?thesis using OpDelete ne Some
      by (cases "length store = 1") (simp_all add: delete_token_def)
  qed
qed

text \<open>
  Claim C6. Deleting the only token of the store is refused and leaves the store as it
  was. Deleting a token of a store with at least two entries removes the first entry
  with that id and nothing else; when the stored hashes are pairwise distinct (the raw
  tokens are 32 random bytes), a bearer token that hashes to the removed entry no longer
  verifies. No operation that writes the token document (first-boot import, a
  verification's \<open>last_used_at\<close> update, creation, deletion) takes a non-empty store
  to the empty one.
\<close>

theorem token_deletion:
  "(length store = 1 \<and> tok_id (hd store) = i \<longrightarrow>
      delete_token i store = (TokenBadRequest ''Cannot delete the last token'', store))
   \<and> (2 \<le> length store \<and> i \<in> tok_id ` set store \<longrightarrow>
        (\<exists>idx < length store.
           tok_id (store ! idx) = i
           \<and> delete_token i store =
               (TokenRemoved i (label (store ! idx)), take idx store @ drop (Suc idx) store)
           \<and> (distinct (map token_hash store) \<and> H raw = token_hash (store ! idx) \<longrightarrow>
                verifyToken H t raw (snd (delete_token i store)) = None)))
   \<and> (store \<noteq> [] \<longrightarrow> token_step H op store \<noteq> [])"
proof (intro conjI impI)
  assume a: "length store = 1 \<and> tok_id (hd store) = i"
  then obtain e where "store = [e]" by (cases store) auto
  with a show "delete_token i store = (TokenBadRequest ''Cannot delete the last token'', store)"
    by (simp add: delete_token_def)
next
  assume a: "2 \<le> length store \<and> i \<in> tok_id ` set store"
  then obtain idx where idx: "findIndex (\<lambda>e. tok_id e = i) store = Some idx"
    using findIndex_Some_ex [of "\<lambda>e. tok_id e = i" store] by auto
  then have lt: "idx < length store" and hit: "tok_id (store ! idx) = i"
    by (auto dest: findIndex_Some)
  have del: "delete_token i store =
      (TokenRemoved i (label (store ! idx)), take idx store @ drop (Suc idx) store)"
    using a idx hit by (simp add: delete_token_def)
  have "verifyToken H t raw (snd (delete_token i store)) = None"
    if "distinct (map token_hash store) \<and> H raw = token_hash (store ! idx)"
    using that remove_nth_no_hash [of token_hash store idx] lt del
    by (simp add: verifyToken_None_iff)
  with lt hit del
  show "\<exists>idx < length store.
           tok_id (store ! idx) = i
           \<and> delete_token i store =
               (TokenRemoved i (label (store ! idx)), take idx store @ drop (Suc idx) store)
           \<and> (distinct (map token_hash store) \<and> H raw = token_hash (store ! idx) \<longrightarrow>
                verifyToken H t raw (snd (delete_token i store)) = None)"
    by blast
next
  assume "store \<noteq> []"
  then show "token_step H op store \<noteq> []" by (rule token_step_nonempty)
qed

theorem token_deletion_witness:
  "delete_token ''tok_a'' [tok_a] = (TokenBadRequest ''Cannot delete the last token'', [tok_a])
   \<and> delete_token ''tok_a'' [tok_a, tok_b] = (TokenRemoved ''tok_a'' ''ops'', [tok_b])
   \<and> verifyToken toy_hash 5 ''a'' [tok_b] = None
   \<and> token_step toy_hash (OpDelete ''tok_a'') [tok_a] \<noteq> []"
proof -
  have "\<exists>idx<length [tok_a, tok_b]. tok_id ([tok_a, tok_b] ! idx) = ''tok_a''
           \<and> delete_token ''tok_a'' [tok_a, tok_b] =
               (TokenRemoved ''tok_a'' (label ([tok_a, tok_b] ! idx)),
                take idx [tok_a, tok_b] @ drop (Suc idx) [tok_a, tok_b])
           \<and> (distinct (map token_hash [tok_a, tok_b])
                 \<and> toy_hash ''a'' = token_hash ([tok_a, tok_b] ! idx) \<longrightarrow>
                verifyToken toy_hash 5 ''a'' (snd (delete_token ''tok_a'' [tok_a, tok_b])) = None)"
    using token_deletion [of "[tok_a, tok_b]" "''tok_a''" toy_hash "''a''" 5]
    by (simp add: tok_a_def tok_b_def)
  then obtain idx where
    i: "idx < length [tok_a, tok_b]" "tok_id ([tok_a, tok_b] ! idx) = ''tok_a''" and
    d: "delete_token ''tok_a'' [tok_a, tok_b] =
               (TokenRemoved ''tok_a'' (label ([tok_a, tok_b] ! idx)),
                take idx [tok_a, tok_b] @ drop (Suc idx) [tok_a, tok_b])" and
    v: "distinct (map token_hash [tok_a, tok_b])
                 \<and> toy_hash ''a'' = token_hash ([tok_a, tok_b] ! idx) \<longrightarrow>
                verifyToken toy_hash 5 ''a'' (snd (delete_token ''tok_a'' [tok_a, tok_b])) = None"
    by blast
  have idx0: "idx = 0" using i by (cases idx) (auto simp: tok_a_def tok_b_def less_Suc_eq)
  have 2: "delete_token ''tok_a'' [tok_a, tok_b] = (TokenRemoved ''tok_a'' ''ops'', [tok_b])"
    using d idx0 by (simp add: tok_a_def)
  have 3: "verifyToken toy_hash 5 ''a'' [tok_b] = None"
    using v idx0 2 by (simp add: tok_a_def tok_b_def toy_hash_def)
  have 1: "delete_token ''tok_a'' [tok_a] = (TokenBadRequest ''Cannot delete the last token'', [tok_a])"
    using token_deletion [of "[tok_a]" "''tok_a''" toy_hash "''a''" 5] by (simp add: tok_a_def)
  have 4: "token_step toy_hash (OpDelete ''tok_a'') [tok_a] \<noteq> []"
    using token_deletion [of "[tok_a]" "''tok_a''" toy_hash "''a''" 5 "OpDelete ''tok_a''"] by simp
  show ?thesis using 1 2 3 4 by simp
qed

lemma authMiddleware_open:
  "\<not> truthy envToken \<Longrightarrow> authMiddleware H t envToken a store = (Next None, store)"
  by (simp add: authMiddleware_def)

lemma authMiddleware_reject:
  assumes "truthy envToken"
    and "\<not> truthy a \<or> \<not> startsWith (the a) ''Bearer '' \<or> drop 7 (the a) = []
         \<or> (\<forall>e \<in> set store. token_hash e \<noteq> H (drop 7 (the a)))"
  shows "\<exists>msg. authMiddleware H t envToken a store = (Unauthorized msg, store)"
proof (cases "\<not> truthy a \<or> \<not> startsWith (the a) ''Bearer ''")
  case True
  then show ?thesis using assms(1) by (auto simp: authMiddleware_def)
next
  case False
  then have pre: "startsWith (the a) ''Bearer ''" by simp
  then have "replace_first ''Bearer '' [] (the a) = drop 7 (the a)"
    using replace_first_prefix [of "the a" "''Bearer ''"] by (simp add: eval_nat_numeral)
  moreover have "verifyToken H t (drop 7 (the a)) store = None"
    using assms(2) False by (simp add: verifyToken_None_iff)
  ultimately show ?thesis using assms(1) False by (simp add: authMiddleware_def)
qed

text \<open>
  Claim C5, as amended. The gate is open exactly when no bootstrap credential
  (\<^verbatim>\<open>MCP_BEARER_TOKEN\<close>) is configured, whatever the token store holds: every
  request then reaches its handler, with no role attached, so \<^verbatim>\<open>requireRole\<close> lets
  it pass too. When the credential is configured, a request whose header is missing, is
  not a \<^verbatim>\<open>Bearer\<close> header, or carries a token that is empty or matches no stored hash
  is answered 401; the handler does not run and the host is unchanged.
\<close>

theorem auth_gate:
  "(\<not> truthy envToken \<longrightarrow>
      route H t envToken roles handler authorization w =
        (Served (fst (handler None w)), snd (handler None w)))
   \<and> (truthy envToken
        \<and> (\<not> truthy authorization \<or> \<not> startsWith (the authorization) ''Bearer ''
            \<or> drop 7 (the authorization) = []
            \<or> (\<forall>e \<in> set (tokens w). token_hash e \<noteq> H (drop 7 (the authorization)))) \<longrightarrow>
      (\<exists>msg. route H t envToken roles handler authorization w = (Status401 msg, w)))"
proof (intro conjI impI)
  assume "\<not> truthy envToken"
  then show "route H t envToken roles handler authorization w =
        (Served (fst (handler None w)), snd (handler None w))"
    by (simp add: route_def authMiddleware_open requireRole_def split: option.splits prod.splits)
next
  assume a: "truthy envToken
        \<and> (\<not> truthy authorization \<or> \<not> startsWith (the authorization) ''Bearer ''
            \<or> drop 7 (the authorization) = []
            \<or> (\<forall>e \<in> set (tokens w). token_hash e \<noteq> H (drop 7 (the authorization))))"
  then obtain msg where
    "authMiddleware H t envToken authorization (tokens w) = (Unauthorized msg, tokens w)"
    using authMiddleware_reject [of envToken authorization "tokens w" H t] by blast
  then show "\<exists>msg. route H t envToken roles handler authorization w = (Status401 msg, w)"
    by (simp add: route_def)
qed

theorem auth_gate_witness:
  "route toy_hash 5 None (Some [''admin'']) (\<lambda>entry w. (entry, w)) None empty_world
     = (Served None, empty_world)
   \<and> (\<exists>msg. route toy_hash 5 (Some ''a'') (Some [''admin'']) (\<lambda>entry w. (entry, w))
        (Some ''Bearer b'') (empty_world\<lparr>tokens := [tok_a]\<rparr>)
      = (Status401 msg, empty_world\<lparr>tokens := [tok_a]\<rparr>))"
  using auth_gate [of None toy_hash 5 "Some [''admin'']" "\<lambda>entry w. (entry, w)" None empty_world]
    auth_gate [of "Some ''a''" toy_hash 5 "Some [''admin'']" "\<lambda>entry w. (entry, w)"
      "Some ''Bearer b''" "empty_world\<lparr>tokens := [tok_a]\<rparr>"]
  by (simp add: truthy_def startsWith_def tok_a_def toy_hash_def)

text \<open>
  The claim as stated fails: with a token in the store and no bootstrap credential, a
  request without any credential reaches an admin-only handler.
\<close>

theorem open_mode_with_tokens_counterexample:
  "tokens (empty_world\<lparr>tokens := [tok_a]\<rparr>) \<noteq> []
   \<and> route toy_hash 5 None (Some [''admin'']) (\<lambda>entry w. (entry, w)) None
       (empty_world\<lparr>tokens := [tok_a]\<rparr>)
     = (Served None, empty_world\<lparr>tokens := [tok_a]\<rparr>)"
  by (simp add: route_def authMiddleware_def truthy_def requireRole_def)

subsection \<open>Name patterns\<close>

lemma nullable_iff: "nullable r \<longleftrightarrow> [] \<in> lang r"
  by (induction r) (auto intro: star_nil)

lemma star_cons_elim:
  assumes "x \<in> star L" and "x = c # s"
  shows "\<exists>u v. s = u @ v \<and> c # u \<in> L \<and> v \<in> star L"
  using assms
proof (induction arbitrary: s rule: star.induct)
  case star_nil
  then show ?case by simp
next
  case (star_app u v)
  show ?case
  proof (cases u)
    case Nil
    then show ?thesis using star_app by simp
  next
    case (Cons a u')
    then have "s = u' @ v" "c # u' \<in> L" using star_app.prems star_app.hyps(1) by simp_all
    then show ?thesis using star_app.hyps(2) by blast
  qed
qed

lemma star_cons:
  "c # s \<in> star L \<longleftrightarrow> (\<exists>u v. s = u @ v \<and> c # u \<in> L \<and> v \<in> star L)"
proof
  assume "c # s \<in> star L"
  then show "\<exists>u v. s = u @ v \<and> c # u \<in> L \<and> v \<in> star L"
    using star_cons_elim by blast
next
  assume "\<exists>u v. s = u @ v \<and> c # u \<in> L \<and> v \<in> star L"
  then obtain u v where "s = u @ v" "c # u \<in> L" "v \<in> star L" by blast
  then show "c # s \<in> star L" using star_app [of "c # u" L v] by simp
qed

lemma lang_deriv: "s \<in> lang (deriv c r) \<longleftrightarrow> c # s \<in> lang r"
proof (induction r arbitrary: s)
  case (Cat r1 r2)
  show ?case
  proof (cases "nullable r1")
    case True
    then have n: "[] \<in> lang r1" by (simp add: nullable_iff)
    show ?thesis
      using True Cat n by (auto simp: Cons_eq_append_conv)
  next
    case False
    then have n: "[] \<notin> lang r1" by (simp add: nullable_iff)
    show ?thesis
      using False Cat n by (auto simp: Cons_eq_append_conv)
  qed
next
  case (Star r)
  then show ?case by (auto simp: star_cons)
qed auto

lemma regex_test_lang: "regex_test r s \<longleftrightarrow> s \<in> lang r"
  by (induction s arbitrary: r) (simp_all add: nullable_iff lang_deriv)

lemma star_cls:
  "s \<in> star {[c] | c. P c} \<longleftrightarrow> list_all P s"
proof (induction s)
  case Nil
  then show ?case by (simp add: star_nil)
next
  case (Cons a s)
  then show ?case by (auto simp: star_cons)
qed

lemma slug_re_matches:
  "regex_test slug_re s \<longleftrightarrow>
     (\<exists>a m b. s = a # m @ [b] \<and> in_cls alnum a \<and> list_all (in_cls alnum_dash) m
               \<and> in_cls alnum b)"
proof -
  have "lang (Star (Cls alnum_dash)) = {m. list_all (in_cls alnum_dash) m}"
    using star_cls [of _ "in_cls alnum_dash"] by (auto simp: in_cls_def)
  then have "lang slug_re =
      {[a] @ (m @ [b]) | a m b. in_cls alnum a \<and> list_all (in_cls alnum_dash) m \<and> in_cls alnum b}"
    unfolding slug_re_def lang.simps(4) lang.simps(3) in_cls_def [symmetric] by blast
  then show ?thesis by (auto simp: regex_test_lang)
qed

lemma slug_re_two_chars: "regex_test slug_re s \<Longrightarrow> 2 \<le> length s"
  by (auto simp: slug_re_matches)

lemma in_cls_alnum:
  "in_cls alnum c \<longleftrightarrow>
     (97 \<le> (of_char c :: nat) \<and> (of_char c :: nat) \<le> 122)
     \<or> (48 \<le> (of_char c :: nat) \<and> (of_char c :: nat) \<le> 57)"
  by (simp add: in_cls_def alnum_def)

lemma post_instances_validation:
  "truthy name \<Longrightarrow> truthy displayName \<Longrightarrow>
     fst (post_instances ev name displayName apiKey pgImage w) = Http400 ''Invalid name format''
       \<longleftrightarrow> \<not> regex_test slug_re (the name)"
  by (auto simp: post_instances_def split: prod.splits create_reply.splits)

subsection \<open>Subprocess frames\<close>

lemma run_frame:
  "tokens (snd (run ev c w)) = tokens w
   \<and> deployments (snd (run ev c w)) = deployments w
   \<and> builds (snd (run ev c w)) = builds w
   \<and> cmdlog (snd (run ev c w)) = cmdlog w"
  by (cases c) (simp_all split: option.splits list.splits)

lemma plain_words [simp]:
  "plain_word ''latest''" "plain_word ''rollback''" "plain_word ''pre-rollback''"
  "plain_word ''constructor''"
  by (simp_all add: plain_word_def plain_char_def)

lemma plain_instance_dir: "plain_word name \<Longrightarrow> plain_path (join APPS_DIR name)"
  by (auto simp: plain_word_def plain_path_def join_def APPS_DIR_def HOST_SRV_def
      plain_char_def list_all_iff)

lemma exec_frame:
  "plain_cmd c \<Longrightarrow>
   tokens (snd (exec ev c w)) = tokens w
   \<and> deployments (snd (exec ev c w)) = deployments w
   \<and> builds (snd (exec ev c w)) = builds w
   \<and> cmdlog (snd (exec ev c w)) = cmdlog w @ [c]"
  using run_frame [of ev c "w\<lparr>cmdlog := cmdlog w @ [c]\<rparr>"]
  by (simp add: exec_def Let_def split: option.splits)

lemma exec_fault:
  "plain_cmd c \<Longrightarrow> faults ev c = Some msg \<Longrightarrow> exec ev c w = (failed msg, w\<lparr>cmdlog := cmdlog w @ [c]\<rparr>)"
  by (simp add: exec_def)

lemma exec_no_fault:
  "plain_cmd c \<Longrightarrow> faults ev c = None \<Longrightarrow> exec ev c w = run ev c (w\<lparr>cmdlog := cmdlog w @ [c]\<rparr>)"
  by (simp add: exec_def)

lemma exec_git_images:
  "images (snd (exec ev (GitRevParse s) w)) = images w"
  "images (snd (exec ev (GitLogSubject s) w)) = images w"
  by (simp_all add: exec_def Let_def split: option.splits)

lemma exec_tag_other:
  "plain_word src \<Longrightarrow> plain_word dst \<Longrightarrow> dst \<noteq> k \<Longrightarrow>
     map_of (images (snd (exec ev (DockerTag src dst) w))) k = map_of (images w) k"
  by (simp add: exec_def Let_def update_conv' split: option.splits)

lemma exec_files:
  "plain_cmd c \<Longrightarrow> (\<forall>d. c \<noteq> RmRf d) \<Longrightarrow> files (snd (exec ev c w)) = files w"
  by (cases c) (simp_all add: exec_def Let_def split: option.splits list.splits)

lemma exec_containers_tag:
  "plain_word a \<Longrightarrow> plain_word b \<Longrightarrow> containers (snd (exec ev (DockerTag a b) w)) = containers w"
  by (simp add: exec_def Let_def split: option.splits)

lemma exec_git_containers:
  "containers (snd (exec ev (GitRevParse s) w)) = containers w"
  "containers (snd (exec ev (GitLogSubject s) w)) = containers w"
  by (simp_all add: exec_def Let_def split: option.splits)

lemma remove_loop_frame:
  "tokens (snd (remove_loop ev keep ts rm w)) = tokens w
   \<and> deployments (snd (remove_loop ev keep ts rm w)) = deployments w
   \<and> builds (snd (remove_loop ev keep ts rm w)) = builds w
   \<and> cmdlog (snd (remove_loop ev keep ts rm w)) =
       cmdlog w @ map DockerRmi (filter (\<lambda>t. t \<noteq> ''<none>'' \<and> t \<notin> set keep) ts)"
proof (induction ts arbitrary: rm w)
  case Nil
  then show ?case by simp
next
  case (Cons t ts)
  show ?case
  proof (cases "t = ''<none>'' \<or> t \<in> set keep")
    case True
    then show ?thesis using Cons.IH [of rm w] by auto
  next
    case False
    obtain r w1 where e: "exec ev (DockerRmi t) w = (r, w1)" by force
    have f: "tokens w1 = tokens w" "deployments w1 = deployments w" "builds w1 = builds w"
        "cmdlog w1 = cmdlog w @ [DockerRmi t]"
      using exec_frame [of "DockerRmi t" ev w] e by simp_all
    show ?thesis
      using False e f Cons.IH [of "if success r then rm @ [t] else rm" w1] by simp
  qed
qed

lemma cleanup_frame:
  "tokens (snd (cleanupBuildImages ev w)) = tokens w
   \<and> deployments (snd (cleanupBuildImages ev w)) = deployments w
   \<and> builds (snd (cleanupBuildImages ev w)) = builds w
   \<and> (\<exists>ts. cmdlog (snd (cleanupBuildImages ev w)) = cmdlog w @ DockerImages # map DockerRmi ts)"
proof -
  obtain r w1 where e: "exec ev DockerImages w = (r, w1)" by force
  have f: "tokens w1 = tokens w" "deployments w1 = deployments w" "builds w1 = builds w"
      "cmdlog w1 = cmdlog w @ [DockerImages]"
    using exec_frame [of DockerImages ev w] e by simp_all
  obtain rm w2 where l: "remove_loop ev (tagsToKeep (now ev) (builds w)) (all_tags_of r) [] w1 = (rm, w2)"
    by force
  have "snd (cleanupBuildImages ev w) = w2"
    using e l by (simp add: cleanupBuildImages_def Let_def)
  then show ?thesis
    using remove_loop_frame [of ev "tagsToKeep (now ev) (builds w)" "all_tags_of r" "[]" w1] l f
    by auto
qed

lemma exec_recreate_images:
  "images (snd (exec ev (ComposeRecreateApp t) w)) = images w"
  by (simp add: exec_def Let_def split: option.splits)

lemma restart_all_frame:
  "tokens (snd (restart_all ev ts w)) = tokens w
   \<and> deployments (snd (restart_all ev ts w)) = deployments w
   \<and> builds (snd (restart_all ev ts w)) = builds w
   \<and> images (snd (restart_all ev ts w)) = images w
   \<and> cmdlog (snd (restart_all ev ts w)) = cmdlog w @ map ComposeRecreateApp ts
   \<and> map fst (fst (restart_all ev ts w)) = ts"
proof (induction ts arbitrary: w)
  case Nil
  then show ?case by simp
next
  case (Cons t ts)
  obtain r w1 where e: "exec ev (ComposeRecreateApp t) w = (r, w1)" by force
  obtain rs w2 where l: "restart_all ev ts w1 = (rs, w2)" by force
  have f: "tokens w1 = tokens w" "deployments w1 = deployments w" "builds w1 = builds w"
      "cmdlog w1 = cmdlog w @ [ComposeRecreateApp t]" "images w1 = images w"
    using exec_frame [of "ComposeRecreateApp t" ev w] exec_recreate_images [of ev t w] e
    by simp_all
  show ?case using e l f Cons.IH [of w1] by simp
qed

lemma exec_inspect_fails:
  "plain_word t \<Longrightarrow> map_of (images w) t = None \<or> faults ev (DockerInspectImage t) \<noteq> None \<Longrightarrow>
     \<not> success (fst (exec ev (DockerInspectImage t) w))
     \<and> snd (exec ev (DockerInspectImage t) w) = w\<lparr>cmdlog := cmdlog w @ [DockerInspectImage t]\<rparr>"
  by (auto simp: exec_def Let_def failed_def split: option.splits)

lemma exec_inspect_ok:
  "plain_word t \<Longrightarrow> map_of (images w) t = Some i \<Longrightarrow> faults ev (DockerInspectImage t) = None \<Longrightarrow>
     exec ev (DockerInspectImage t) w =
       (ok [''sha256:'' @ i], w\<lparr>cmdlog := cmdlog w @ [DockerInspectImage t]\<rparr>)"
  by (simp add: exec_def Let_def)

lemma exec_tag_keeps:
  "plain_word a \<Longrightarrow> plain_word b \<Longrightarrow> map_of (images w) k \<noteq> None \<Longrightarrow>
     map_of (images (snd (exec ev (DockerTag a b) w))) k \<noteq> None"
  by (auto simp: exec_def Let_def update_conv' split: option.splits)

lemma exec_tag_ok:
  "plain_word a \<Longrightarrow> plain_word b \<Longrightarrow> map_of (images w) a = Some j \<Longrightarrow> faults ev (DockerTag a b) = None \<Longrightarrow>
     exec ev (DockerTag a b) w =
       (ok [], w\<lparr>cmdlog := cmdlog w @ [DockerTag a b], images := AList.update b j (images w)\<rparr>)"
  by (simp add: exec_def Let_def)

subsection \<open>Build pipeline\<close>

text \<open>
  Claim C1. When the build subprocess of a call without the skip-build flag fails with
  error \<open>err\<close>, \<^verbatim>\<open>rebuildInstances\<close> replies with that error at step build, puts
  exactly one record in front of the build history (\<open>success: false\<close>, the error, no
  image id, nothing restarted), and runs four subprocesses only: the two git queries,
  the safety-net tagging and the build. No restart is run, the deployment registry (so
  every instance's status) is as before, and the tag \<open>latest\<close> names the image it
  named before.
\<close>

theorem failed_build_touches_nothing:
  assumes fail: "faults ev (DockerBuild (build_tag ev) (source_path w)) = Some err"
  shows "fst (rebuildInstances ev name False trig w) = BuildFailed err
    \<and> (\<exists>b. builds (snd (rebuildInstances ev name False trig w)) = b # builds w
           \<and> \<not> bld_success b \<and> bld_error b = Some err \<and> tag b = build_tag ev
           \<and> image_id b = None \<and> instances_restarted b = [])
    \<and> cmdlog (snd (rebuildInstances ev name False trig w)) =
        cmdlog w @ [GitRevParse (source_path w), GitLogSubject (source_path w),
                    DockerTag ''latest'' ''rollback'',
                    DockerBuild (build_tag ev) (source_path w)]
    \<and> deployments (snd (rebuildInstances ev name False trig w)) = deployments w
    \<and> map_of (images (snd (rebuildInstances ev name False trig w))) ''latest''
        = map_of (images w) ''latest''
    \<and> containers (snd (rebuildInstances ev name False trig w)) = containers w"
proof -
  define src where "src = source_path w"
  obtain g1 w1 where e1: "exec ev (GitRevParse src) w = (g1, w1)" by force
  obtain g2 w2 where e2: "exec ev (GitLogSubject src) w1 = (g2, w2)" by force
  obtain r3 w3 where e3: "exec ev (DockerTag ''latest'' ''rollback'') w2 = (r3, w3)" by force
  define w4 where "w4 = w3\<lparr>cmdlog := cmdlog w3 @ [DockerBuild (build_tag ev) src]\<rparr>"
  have e4: "exec ev (DockerBuild (build_tag ev) src) w3 = (failed err, w4)"
    using fail by (simp add: exec_fault src_def w4_def)
  have f1: "builds w1 = builds w" "deployments w1 = deployments w"
      "cmdlog w1 = cmdlog w @ [GitRevParse src]" "images w1 = images w"
      "containers w1 = containers w"
    using exec_frame [of "GitRevParse src" ev w] exec_git_images(1) [of ev src w]
      exec_git_containers(1) [of ev src w] e1 by simp_all
  have f2: "builds w2 = builds w1" "deployments w2 = deployments w1"
      "cmdlog w2 = cmdlog w1 @ [GitLogSubject src]" "images w2 = images w1"
      "containers w2 = containers w1"
    using exec_frame [of "GitLogSubject src" ev w1] exec_git_images(2) [of ev src w1]
      exec_git_containers(2) [of ev src w1] e2 by simp_all
  have f3: "builds w3 = builds w2" "deployments w3 = deployments w2"
      "cmdlog w3 = cmdlog w2 @ [DockerTag ''latest'' ''rollback'']"
      "map_of (images w3) ''latest'' = map_of (images w2) ''latest''"
      "containers w3 = containers w2"
    using exec_frame [of "DockerTag ''latest'' ''rollback''" ev w2]
      exec_tag_other [of "''latest''" "''rollback''" "''latest''" ev w2]
      exec_containers_tag [of "''latest''" "''rollback''" ev w2] e3 by simp_all
  have res: "rebuildInstances ev name False trig w =
      (BuildFailed err,
       recordBuild (build_entry ev g1 g2 None False (Some err) trig []) w4)"
    using e1 e2 e3 e4
    by (simp add: rebuildInstances_def Let_def src_def [symmetric] failed_def)
  show ?thesis
    unfolding res using f1 f2 f3
    by (simp add: recordBuild_def build_entry_def w4_def src_def)
qed

lemma src_acme: "source_path w_acme = ''/host-srv/projects/matrx-ship''"
  by (simp add: source_path_def w_acme_def no_defaults_def or_else_def resolveHostPath_def
      startsWith_def HOST_SRV_def)

theorem failed_build_touches_nothing_witness:
  "fst (rebuildInstances ev_build_fails None False (Some ''api'') w_acme)
     = BuildFailed ''exit code 1''
   \<and> length (builds (snd (rebuildInstances ev_build_fails None False (Some ''api'') w_acme))) = 1
   \<and> deployments (snd (rebuildInstances ev_build_fails None False (Some ''api'') w_acme))
       = deployments w_acme
   \<and> map_of (images (snd (rebuildInstances ev_build_fails None False (Some ''api'') w_acme)))
        ''latest'' = Some ''img-new''"
proof -
  have f: "faults ev_build_fails
             (DockerBuild (build_tag ev_build_fails) (source_path w_acme)) = Some ''exit code 1''"
    by (simp add: src_acme ev_build_fails_def ev0_def)
  show ?thesis
    using failed_build_touches_nothing [OF f, of None "Some ''api''"]
    by (auto simp: w_acme_def)
qed

text \<open>
  Claim C9 fails on the code. A build for a target \<open>t\<close> that the registry does not
  hold succeeds, runs no restart at all, reports \<open>not found\<close> for \<open>t\<close> in
  \<open>results.restarts\<close>, and still writes \<open>instances_restarted = [t]\<close> into the build
  record: the record lists the targets, not the instances that were restarted.
\<close>

theorem absent_target_recorded_as_restarted:
  assumes t: "t \<noteq> []"
    and absent: "\<not> has_instance (instances (deployments w)) t"
    and built: "faults ev (DockerBuild (build_tag ev) (source_path w)) = None"
  shows "(\<exists>img. fst (rebuildInstances ev (Some t) False trig w) =
            Rebuilt True (Some (build_tag ev)) img [t] [(t, TargetNotFound)])
    \<and> (\<exists>b. builds (snd (rebuildInstances ev (Some t) False trig w)) = b # builds w
           \<and> bld_success b \<and> instances_restarted b = [t])
    \<and> (\<exists>cs. cmdlog (snd (rebuildInstances ev (Some t) False trig w)) = cmdlog w @ cs
           \<and> (\<forall>u. ComposeRecreateApp u \<notin> set cs))"
proof -
  define src where "src = source_path w"
  obtain g1 w1 where e1: "exec ev (GitRevParse src) w = (g1, w1)" by force
  obtain g2 w2 where e2: "exec ev (GitLogSubject src) w1 = (g2, w2)" by force
  obtain r3 w3 where e3: "exec ev (DockerTag ''latest'' ''rollback'') w2 = (r3, w3)" by force
  obtain r4 w4 where e4: "exec ev (DockerBuild (build_tag ev) src) w3 = (r4, w4)" by force
  obtain r5 w5 where e5: "exec ev (DockerInspectImage ''latest'') w4 = (r5, w5)" by force
  have ok4: "success r4"
    using e4 built by (auto simp: exec_def Let_def src_def ok_def)
  have f1: "builds w1 = builds w" "cmdlog w1 = cmdlog w @ [GitRevParse src]"
    using exec_frame [of "GitRevParse src" ev w] e1 by simp_all
  have f2: "builds w2 = builds w1" "cmdlog w2 = cmdlog w1 @ [GitLogSubject src]"
    using exec_frame [of "GitLogSubject src" ev w1] e2 by simp_all
  have f3: "builds w3 = builds w2" "cmdlog w3 = cmdlog w2 @ [DockerTag ''latest'' ''rollback'']"
    using exec_frame [of "DockerTag ''latest'' ''rollback''" ev w2] e3 by simp_all
  have f4: "builds w4 = builds w3" "cmdlog w4 = cmdlog w3 @ [DockerBuild (build_tag ev) src]"
    using exec_frame [of "DockerBuild (build_tag ev) src" ev w3] e4 by simp_all
  have f5: "builds w5 = builds w4" "cmdlog w5 = cmdlog w4 @ [DockerInspectImage ''latest'']"
    using exec_frame [of "DockerInspectImage ''latest''" ev w4] e5 by simp_all
  define entry where
    "entry = build_entry ev g1 g2 (short_id r5) True None trig [t]"
  define w6 where "w6 = recordBuild entry w5"
  define w7 where "w7 = snd (cleanupBuildImages (ev\<lparr>now := now ev + elapsed ev\<rparr>) w6)"
  have res: "rebuildInstances ev (Some t) False trig w =
      (Rebuilt True (Some (build_tag ev)) (short_id r5) [t] [(t, TargetNotFound)], w7)"
    using e1 e2 e3 e4 e5 ok4 t absent
    by (simp add: rebuildInstances_def restart_and_record_def Let_def src_def [symmetric]
        truthy_def w7_def w6_def entry_def)
  obtain ts where c7: "builds w7 = builds w6" "cmdlog w7 = cmdlog w6 @ DockerImages # map DockerRmi ts"
    using cleanup_frame [of "ev\<lparr>now := now ev + elapsed ev\<rparr>" w6] by (auto simp: w7_def)
  have b: "builds w7 = entry # builds w"
    using c7 f1 f2 f3 f4 f5 by (simp add: w6_def recordBuild_def)
  have c: "cmdlog w7 = cmdlog w @
      ([GitRevParse src, GitLogSubject src, DockerTag ''latest'' ''rollback'',
        DockerBuild (build_tag ev) src, DockerInspectImage ''latest'', DockerImages]
       @ map DockerRmi ts)"
    using c7 f1 f2 f3 f4 f5 by (simp add: w6_def recordBuild_def)
  have "\<forall>u. ComposeRecreateApp u \<notin> set
      ([GitRevParse src, GitLogSubject src, DockerTag ''latest'' ''rollback'',
        DockerBuild (build_tag ev) src, DockerInspectImage ''latest'', DockerImages]
       @ map DockerRmi ts)"
    by auto
  with c have "\<exists>cs. cmdlog w7 = cmdlog w @ cs \<and> (\<forall>u. ComposeRecreateApp u \<notin> set cs)"
    by blast
  moreover have "bld_success entry \<and> instances_restarted entry = [t]"
    by (simp add: entry_def build_entry_def)
  ultimately show ?thesis
    unfolding res using b by auto
qed

theorem absent_target_recorded_as_restarted_witness:
  "(\<exists>img. fst (rebuildInstances ev0 (Some ''ghost'') False (Some ''api'') w_acme) =
            Rebuilt True (Some ''20260316-120000'') img [''ghost''] [(''ghost'', TargetNotFound)])
   \<and> (\<exists>b. builds (snd (rebuildInstances ev0 (Some ''ghost'') False (Some ''api'') w_acme)) = [b]
          \<and> bld_success b \<and> instances_restarted b = [''ghost''])"
proof -
  have a: "''ghost'' \<noteq> []" by simp
  have b: "\<not> has_instance (instances (deployments w_acme)) ''ghost''"
    by (simp add: has_instance_def object_prototype_keys_def w_acme_def)
  have c: "faults ev0 (DockerBuild (build_tag ev0) (source_path w_acme)) = None"
    by (simp add: ev0_def no_faults_def)
  show ?thesis
    using absent_target_recorded_as_restarted [OF a b c, of "Some ''api''"]
    by (simp add: ev0_def w_acme_def)
qed

subsection \<open>Rollback\<close>

text \<open>
  Claim C2, as amended. A missing or empty tag is refused (\<open>tag is required\<close>) and
  nothing happens. The rest is about a tag that is one word of letters, digits, \<open>_\<close>,
  \<open>.\<close> and \<open>-\<close>, the characters of an image tag (any other tag is interpolated
  into the command lines unvalidated, and what the shell then runs is not stated here).
  Such a tag whose inspection fails is refused with \<open>TagNotFound\<close>; the inspection is
  the only subprocess run and nothing else changes. When the inspection succeeds but the
  re-tagging subprocess fails, the call stops with \<open>Failed to retag\<close>: no restart, no
  build record, \<open>latest\<close> as before. When both succeed, a restart is run for every
  registered instance, in registry order, and one record is put in front of the history
  with tag \<open>rollback-to-<tag>\<close>, duration 0, \<open>triggered_by = rollback\<close> and all
  registered names as \<open>instances_restarted\<close>; for every tag but \<open>pre-rollback\<close>,
  \<open>latest\<close> then names the image the tag named at the start.
\<close>

theorem rollback_behaviour:
  "(\<not> truthy tg \<longrightarrow> rollbackBuild ev tg w = (RollbackError TagRequired, w))
   \<and> (truthy tg \<and> plain_word (the tg)
        \<and> (map_of (images w) (the tg) = None \<or> faults ev (DockerInspectImage (the tg)) \<noteq> None)
      \<longrightarrow> rollbackBuild ev tg w =
            (RollbackError (TagNotFound (the tg)),
             w\<lparr>cmdlog := cmdlog w @ [DockerInspectImage (the tg)]\<rparr>))
   \<and> (truthy tg \<and> plain_word (the tg) \<and> map_of (images w) (the tg) = Some i
        \<and> faults ev (DockerInspectImage (the tg)) = None
        \<and> faults ev (DockerTag (the tg) ''latest'') = Some e
      \<longrightarrow> fst (rollbackBuild ev tg w) = RollbackError (RetagFailed e)
          \<and> builds (snd (rollbackBuild ev tg w)) = builds w
          \<and> map_of (images (snd (rollbackBuild ev tg w))) ''latest'' = map_of (images w) ''latest''
          \<and> cmdlog (snd (rollbackBuild ev tg w)) =
              cmdlog w @ [DockerInspectImage (the tg), DockerTag ''latest'' ''pre-rollback'',
                          DockerTag (the tg) ''latest''])
   \<and> (truthy tg \<and> plain_word (the tg) \<and> map_of (images w) (the tg) = Some i
        \<and> faults ev (DockerInspectImage (the tg)) = None
        \<and> faults ev (DockerTag (the tg) ''latest'') = None
      \<longrightarrow> (\<exists>img rs. fst (rollbackBuild ev tg w) =
                       RolledBack (the tg) img (map fst (instances (deployments w))) rs
                     \<and> map fst rs = map fst (instances (deployments w)))
          \<and> (\<exists>b. builds (snd (rollbackBuild ev tg w)) = b # builds w
                 \<and> tag b = ''rollback-to-'' @ the tg \<and> duration_ms b = 0
                 \<and> triggered_by b = ''rollback'' \<and> bld_success b
                 \<and> instances_restarted b = map fst (instances (deployments w)))
          \<and> cmdlog (snd (rollbackBuild ev tg w)) =
              cmdlog w @ [DockerInspectImage (the tg), DockerTag ''latest'' ''pre-rollback'',
                          DockerTag (the tg) ''latest'']
                @ map ComposeRecreateApp (map fst (instances (deployments w)))
          \<and> (the tg \<noteq> ''pre-rollback'' \<longrightarrow>
                map_of (images (snd (rollbackBuild ev tg w))) ''latest'' = Some i)
          \<and> deployments (snd (rollbackBuild ev tg w)) = deployments w)"
proof (intro conjI impI)
  assume "\<not> truthy tg"
  then show "rollbackBuild ev tg w = (RollbackError TagRequired, w)"
    by (simp add: rollbackBuild_def)
next
  assume a: "truthy tg \<and> plain_word (the tg)
        \<and> (map_of (images w) (the tg) = None \<or> faults ev (DockerInspectImage (the tg)) \<noteq> None)"
  obtain r w1 where e: "exec ev (DockerInspectImage (the tg)) w = (r, w1)" by force
  then have "\<not> success r" "w1 = w\<lparr>cmdlog := cmdlog w @ [DockerInspectImage (the tg)]\<rparr>"
    using a exec_inspect_fails [of "the tg" w ev] by simp_all
  then show "rollbackBuild ev tg w =
            (RollbackError (TagNotFound (the tg)),
             w\<lparr>cmdlog := cmdlog w @ [DockerInspectImage (the tg)]\<rparr>)"
    using a e by (simp add: rollbackBuild_def)
next
  assume a: "truthy tg \<and> plain_word (the tg) \<and> map_of (images w) (the tg) = Some i
        \<and> faults ev (DockerInspectImage (the tg)) = None
        \<and> faults ev (DockerTag (the tg) ''latest'') = Some e"
  define t where "t = the tg"
  define w1 where "w1 = w\<lparr>cmdlog := cmdlog w @ [DockerInspectImage t]\<rparr>"
  define w2 where "w2 = snd (exec ev (DockerTag ''latest'' ''pre-rollback'') w1)"
  define w3 where "w3 = w2\<lparr>cmdlog := cmdlog w2 @ [DockerTag t ''latest'']\<rparr>"
  have e1: "exec ev (DockerInspectImage t) w = (ok [''sha256:'' @ i], w1)"
    using a exec_inspect_ok [of t w i ev] by (simp add: t_def w1_def)
  have e3: "exec ev (DockerTag t ''latest'') w2 = (failed e, w3)"
    using a by (simp add: exec_fault t_def w3_def)
  have res: "rollbackBuild ev tg w = (RollbackError (RetagFailed e), w3)"
    using a e1 e3
    by (simp add: rollbackBuild_def Let_def t_def [symmetric] w2_def [symmetric] ok_def failed_def)
  have f2: "builds w2 = builds w" "cmdlog w2 = cmdlog w1 @ [DockerTag ''latest'' ''pre-rollback'']"
      "map_of (images w2) ''latest'' = map_of (images w) ''latest''"
    using exec_frame [of "DockerTag ''latest'' ''pre-rollback''" ev w1]
      exec_tag_other [of "''latest''" "''pre-rollback''" "''latest''" ev w1]
    by (simp_all add: w2_def w1_def)
  show "fst (rollbackBuild ev tg w) = RollbackError (RetagFailed e)"
    by (simp add: res)
  show "builds (snd (rollbackBuild ev tg w)) = builds w"
    using f2 by (simp add: res w3_def)
  show "map_of (images (snd (rollbackBuild ev tg w))) ''latest'' = map_of (images w) ''latest''"
    using f2 by (simp add: res w3_def)
  show "cmdlog (snd (rollbackBuild ev tg w)) =
              cmdlog w @ [DockerInspectImage (the tg), DockerTag ''latest'' ''pre-rollback'',
                          DockerTag (the tg) ''latest'']"
    using f2 by (simp add: res w3_def w1_def t_def)
next
  assume a: "truthy tg \<and> plain_word (the tg) \<and> map_of (images w) (the tg) = Some i
        \<and> faults ev (DockerInspectImage (the tg)) = None
        \<and> faults ev (DockerTag (the tg) ''latest'') = None"
  define t where "t = the tg"
  define keys where "keys = map fst (instances (deployments w))"
  define w1 where "w1 = w\<lparr>cmdlog := cmdlog w @ [DockerInspectImage t]\<rparr>"
  define w2 where "w2 = snd (exec ev (DockerTag ''latest'' ''pre-rollback'') w1)"
  have e1: "exec ev (DockerInspectImage t) w = (ok [''sha256:'' @ i], w1)"
    using a exec_inspect_ok [of t w i ev] by (simp add: t_def w1_def)
  have f2: "builds w2 = builds w" "deployments w2 = deployments w"
      "cmdlog w2 = cmdlog w1 @ [DockerTag ''latest'' ''pre-rollback'']"
    using exec_frame [of "DockerTag ''latest'' ''pre-rollback''" ev w1]
    by (simp_all add: w2_def w1_def)
  have "map_of (images w2) t \<noteq> None"
    using a exec_tag_keeps [of "''latest''" "''pre-rollback''" w1 t ev]
    by (simp add: w2_def w1_def t_def)
  then obtain j where j: "map_of (images w2) t = Some j" by blast
  have ji: "t \<noteq> ''pre-rollback'' \<Longrightarrow> j = i"
    using a j exec_tag_other [of "''latest''" "''pre-rollback''" t ev w1]
    by (simp add: w2_def w1_def t_def)
  define w3 where
    "w3 = w2\<lparr>cmdlog := cmdlog w2 @ [DockerTag t ''latest''],
             images := AList.update ''latest'' j (images w2)\<rparr>"
  have e3: "exec ev (DockerTag t ''latest'') w2 = (ok [], w3)"
    using a j exec_tag_ok [of t "''latest''" w2 j ev] by (simp add: t_def w3_def)
  obtain rs w4 where l: "restart_all ev keys w3 = (rs, w4)" by force
  have f4: "deployments w4 = deployments w3" "builds w4 = builds w3" "images w4 = images w3"
      "cmdlog w4 = cmdlog w3 @ map ComposeRecreateApp keys" "map fst rs = keys"
    using restart_all_frame [of ev keys w3] l by simp_all
  define b where
    "b = \<lparr>bld_id = ''bld_'' @ rand ev 0, tag = ''rollback-to-'' @ t,
          timestamp = now ev, git_commit = ''rollback'',
          git_message = ''Rollback to image tag: '' @ t,
          image_id = short_id (ok [''sha256:'' @ i]), bld_success = True, bld_error = None,
          duration_ms = 0, triggered_by = ''rollback'',
          instances_restarted = keys\<rparr>"
  have d3: "deployments w3 = deployments w" using f2 by (simp add: w3_def)
  have res: "rollbackBuild ev tg w =
      (RolledBack t (short_id (ok [''sha256:'' @ i])) keys rs, recordBuild b w4)"
    using a e1 e3 l d3
    by (simp add: rollbackBuild_def Let_def t_def [symmetric] w2_def [symmetric] ok_def
        keys_def [symmetric] b_def)
  show "\<exists>img rs. fst (rollbackBuild ev tg w) =
                       RolledBack (the tg) img (map fst (instances (deployments w))) rs
                     \<and> map fst rs = map fst (instances (deployments w))"
    using f4 by (simp add: res t_def keys_def)
  show "\<exists>b. builds (snd (rollbackBuild ev tg w)) = b # builds w
                 \<and> tag b = ''rollback-to-'' @ the tg \<and> duration_ms b = 0
                 \<and> triggered_by b = ''rollback'' \<and> bld_success b
                 \<and> instances_restarted b = map fst (instances (deployments w))"
    using f4 f2 by (simp add: res recordBuild_def w3_def b_def t_def keys_def)
  show "cmdlog (snd (rollbackBuild ev tg w)) =
              cmdlog w @ [DockerInspectImage (the tg), DockerTag ''latest'' ''pre-rollback'',
                          DockerTag (the tg) ''latest'']
                @ map ComposeRecreateApp (map fst (instances (deployments w)))"
    using f4 f2 by (simp add: res recordBuild_def w3_def w1_def t_def keys_def)
  show "map_of (images (snd (rollbackBuild ev tg w))) ''latest'' = Some i"
    if "the tg \<noteq> ''pre-rollback''"
    using that ji f4 by (simp add: res recordBuild_def w3_def t_def update_conv')
  show "deployments (snd (rollbackBuild ev tg w)) = deployments w"
    using f4 d3 by (simp add: res recordBuild_def)
qed

theorem rollback_behaviour_witness:
  "rollbackBuild ev0 None w_acme = (RollbackError TagRequired, w_acme)
   \<and> fst (rollbackBuild ev0 (Some ''nope'') w_acme) = RollbackError (TagNotFound ''nope'')
   \<and> fst (rollbackBuild ev_retag_fails (Some ''20260301-090000'') w_acme)
       = RollbackError (RetagFailed ''daemon timeout'')
   \<and> map_of (images (snd (rollbackBuild ev0 (Some ''20260301-090000'') w_acme))) ''latest''
       = Some ''img-old''
   \<and> cmdlog (snd (rollbackBuild ev0 (Some ''20260301-090000'') w_acme))
       = [DockerInspectImage ''20260301-090000'', DockerTag ''latest'' ''pre-rollback'',
          DockerTag ''20260301-090000'' ''latest'', ComposeRecreateApp ''acme'']"
  using rollback_behaviour [where tg = None and ev = ev0 and w = w_acme]
    rollback_behaviour [where tg = "Some ''nope''" and ev = ev0 and w = w_acme]
    rollback_behaviour [where tg = "Some ''20260301-090000''" and ev = ev_retag_fails
      and w = w_acme and i = "''img-old''" and e = "''daemon timeout''"]
    rollback_behaviour [where tg = "Some ''20260301-090000''" and ev = ev0 and w = w_acme
      and i = "''img-old''"]
  by (simp add: truthy_def w_acme_def ev0_def ev_retag_fails_def no_faults_def
      plain_word_def plain_char_def)

text \<open>
  The claim C2 as stated fails in three ways. On the host \<open>w_acme\<close> the tag
  \<open>20260301-090000\<close> resolves, the re-tagging subprocess fails, and the rollback stops:
  no restart, no build record. A rollback to \<open>pre-rollback\<close>, with every subprocess
  succeeding, reports success while \<open>latest\<close> still names the image it named before:
  the safety-net tagging has moved \<open>pre-rollback\<close> to the current image first, and the
  image the tag named at the start is no longer tagged at all. And the tag
  \<open>nope;true\<close> names no image, yet the shell ends both command lines it is
  interpolated into with \<^verbatim>\<open>true\<close>: the rollback is not refused, the fleet is
  restarted and a rollback is recorded.
\<close>

theorem rollback_counterexample:
  "map_of (images w_acme) ''20260301-090000'' = Some ''img-old''
   \<and> fst (rollbackBuild ev_retag_fails (Some ''20260301-090000'') w_acme)
       = RollbackError (RetagFailed ''daemon timeout'')
   \<and> builds (snd (rollbackBuild ev_retag_fails (Some ''20260301-090000'') w_acme)) = []
   \<and> cmdlog (snd (rollbackBuild ev_retag_fails (Some ''20260301-090000'') w_acme))
       = [DockerInspectImage ''20260301-090000'', DockerTag ''latest'' ''pre-rollback'',
          DockerTag ''20260301-090000'' ''latest'']
   \<and> map_of (images w_acme) ''pre-rollback'' = Some ''img-pre''
   \<and> (\<exists>rs. fst (rollbackBuild ev0 (Some ''pre-rollback'') w_acme)
             = RolledBack ''pre-rollback'' (Some ''img-pre'') [''acme''] rs)
   \<and> map_of (images (snd (rollbackBuild ev0 (Some ''pre-rollback'') w_acme))) ''latest''
       = Some ''img-new''
   \<and> ''img-pre'' \<notin> snd ` set (images (snd (rollbackBuild ev0 (Some ''pre-rollback'') w_acme)))
   \<and> map_of (images w_acme) ''nope;true'' = None
   \<and> (\<exists>img rs. fst (rollbackBuild ev_injected (Some ''nope;true'') w_acme)
             = RolledBack ''nope;true'' img [''acme''] rs)
   \<and> map tag (builds (snd (rollbackBuild ev_injected (Some ''nope;true'') w_acme)))
       = [''rollback-to-nope;true'']
   \<and> cmdlog (snd (rollbackBuild ev_injected (Some ''nope;true'') w_acme))
       = [DockerInspectImage ''nope;true'', DockerTag ''latest'' ''pre-rollback'',
          DockerTag ''nope;true'' ''latest'', ComposeRecreateApp ''acme'']"
  by (simp add: rollbackBuild_def exec_def Let_def w_acme_def ev_retag_fails_def ev0_def
      ev_injected_def no_faults_def truthy_def ok_def failed_def recordBuild_def short_id_def
      output_text_def startsWith_def compose_file_def join_def APPS_DIR_def HOST_SRV_def
      instance_containers_def List.union_def List.insert_def plain_word_def plain_char_def)

subsection \<open>Removal and provisioning\<close>

lemma remove_unknown:
  "\<not> has_instance (instances (deployments w)) name \<Longrightarrow>
     removeInstance ev name dd w = (NotFound name, w)"
  by (simp add: removeInstance_def)

lemma remove_known:
  assumes "has_instance (instances (deployments w)) name" and "plain_word name"
  shows "(\<exists>cd d. fst (removeInstance ev name dd w) = Removed name dd cd d)
    \<and> map_of (instances (deployments (snd (removeInstance ev name dd w)))) name = None
    \<and> (\<forall>k. k \<noteq> name \<longrightarrow>
          map_of (instances (deployments (snd (removeInstance ev name dd w)))) k
            = map_of (instances (deployments w)) k)
    \<and> (\<exists>c cs. cmdlog (snd (removeInstance ev name dd w)) = cmdlog w @ c # cs
          \<and> c \<in> {ComposeDown dd name, DockerRmForce name})"
proof -
  define dir where "dir = join APPS_DIR name"
  define cw where "cw =
      (if files w (join dir ''docker-compose.yml'') \<noteq> None
       then exec ev (ComposeDown dd name) w
       else (ok [''Containers removed directly''], snd (exec ev (DockerRmForce name) w)))"
  define dw where "dw =
      (if dd then (case exec ev (RmRf dir) (snd cw) of (r, w') \<Rightarrow> (Some r, w'))
       else (None, snd cw))"
  have res: "removeInstance ev name dd w =
      (Removed name dd (fst cw) (fst dw),
       (snd dw)\<lparr>deployments :=
          (deployments w)\<lparr>instances := AList.delete name (instances (deployments w))\<rparr>\<rparr>)"
    using assms(1)
    by (simp add: removeInstance_def Let_def case_prod_beta dir_def cw_def dw_def)
  have c1: "\<exists>c. cmdlog (snd cw) = cmdlog w @ [c] \<and> c \<in> {ComposeDown dd name, DockerRmForce name}"
    using exec_frame [of "ComposeDown dd name" ev w] exec_frame [of "DockerRmForce name" ev w]
      assms(2)
    by (simp add: cw_def)
  have c2: "\<exists>cs. cmdlog (snd dw) = cmdlog (snd cw) @ cs"
    using exec_frame [of "RmRf dir" ev "snd cw"] plain_instance_dir [OF assms(2)]
    by (cases dd) (simp_all add: dw_def case_prod_beta dir_def)
  from c1 c2 have "\<exists>c cs. cmdlog (snd dw) = cmdlog w @ c # cs
      \<and> c \<in> {ComposeDown dd name, DockerRmForce name}"
    by auto
  then show ?thesis
    unfolding res by (simp add: delete_conv')
qed

text \<open>
  Claim C10 fails on the code for a name that a plain object inherits. The registry
  holds no instance \<open>constructor\<close>, yet \<^verbatim>\<open>config.instances["constructor"]\<close> is
  truthy, so \<^verbatim>\<open>removeInstance\<close> does not answer \<open>not found\<close>: it runs the teardown
  subprocess (and \<^verbatim>\<open>rm -rf\<close> when asked to delete data) and replies
  \<open>success: true\<close>. The rest of the claim holds (\<open>remove_unknown\<close>, and
  \<open>remove_known\<close> for a name that stays one word of the command line).
\<close>

theorem remove_absent_constructor_succeeds:
  "''constructor'' \<notin> fst ` set (instances (deployments w)) \<longrightarrow>
     (\<exists>cd d. fst (removeInstance ev ''constructor'' dd w) = Removed ''constructor'' dd cd d)
     \<and> (\<exists>c cs. cmdlog (snd (removeInstance ev ''constructor'' dd w)) = cmdlog w @ c # cs
           \<and> c \<in> {ComposeDown dd ''constructor'', DockerRmForce ''constructor''})"
proof
  have "has_instance (instances (deployments w)) ''constructor''"
    by (simp add: has_instance_def object_prototype_keys_def)
  then show "(\<exists>cd d. fst (removeInstance ev ''constructor'' dd w) = Removed ''constructor'' dd cd d)
     \<and> (\<exists>c cs. cmdlog (snd (removeInstance ev ''constructor'' dd w)) = cmdlog w @ c # cs
           \<and> c \<in> {ComposeDown dd ''constructor'', DockerRmForce ''constructor''})"
    using remove_known [of w "''constructor''" ev dd] by simp
qed

theorem remove_absent_constructor_succeeds_witness:
  "fst (removeInstance ev0 ''constructor'' True w_acme)
     = Removed ''constructor'' True (ok [''Containers removed directly'']) (Some (ok []))
   \<and> cmdlog (snd (removeInstance ev0 ''constructor'' True w_acme))
     = [DockerRmForce ''constructor'', RmRf ''/host-srv/apps/constructor'']"
proof -
  have "fst (removeInstance ev0 ''constructor'' True w_acme)
     = Removed ''constructor'' True (ok [''Containers removed directly'']) (Some (ok []))
   \<and> cmdlog (snd (removeInstance ev0 ''constructor'' True w_acme))
     = [DockerRmForce ''constructor'', RmRf ''/host-srv/apps/constructor'']"
    by code_simp
  then show ?thesis
    using remove_absent_constructor_succeeds [of w_acme ev0 True] by simp
qed

text \<open>
  Claim C7. Provisioning under a name the registry already holds fails with
  \<open>already exists\<close> (status 409 on the REST route, for a name that matches the pattern
  and a non-empty display name), and the host is exactly as before: the first instance's
  record and its rendered files are untouched, and no subprocess is run.
\<close>

theorem provision_conflict:
  "map_of (instances (deployments w)) name = Some r \<longrightarrow>
     createInstance ev name displayName apiKey pgImage w = (CreateError (AlreadyExists name), w)
     \<and> (regex_test slug_re name \<longrightarrow>
          app_create ev name displayName apiKey pgImage w
            = (Some (CreateError (AlreadyExists name)), w))
     \<and> (regex_test slug_re name \<and> displayName \<noteq> [] \<longrightarrow>
          post_instances ev (Some name) (Some displayName) apiKey pgImage w
            = (Http409 (AlreadyExists name), w))"
proof
  assume a: "map_of (instances (deployments w)) name = Some r"
  then have c: "createInstance ev name displayName apiKey pgImage w
      = (CreateError (AlreadyExists name), w)"
    by (simp add: createInstance_def has_instance_def)
  have "name \<noteq> []" if "regex_test slug_re name"
    using that by (auto simp: slug_re_def)
  then show "createInstance ev name displayName apiKey pgImage w
       = (CreateError (AlreadyExists name), w)
     \<and> (regex_test slug_re name \<longrightarrow>
          app_create ev name displayName apiKey pgImage w
            = (Some (CreateError (AlreadyExists name)), w))
     \<and> (regex_test slug_re name \<and> displayName \<noteq> [] \<longrightarrow>
          post_instances ev (Some name) (Some displayName) apiKey pgImage w
            = (Http409 (AlreadyExists name), w))"
    using c by (simp add: app_create_def post_instances_def truthy_def)
qed

lemma slug_acme: "regex_test slug_re ''acme''"
  by (simp add: slug_re_def alnum_def alnum_dash_def)

theorem provision_conflict_witness:
  "createInstance ev0 ''acme'' ''Acme Two'' None None w_acme
     = (CreateError (AlreadyExists ''acme''), w_acme)
   \<and> post_instances ev0 (Some ''acme'') (Some ''Acme Two'') None None w_acme
     = (Http409 (AlreadyExists ''acme''), w_acme)
   \<and> map_of (instances (deployments w_acme)) ''acme'' = Some inst_acme
   \<and> files w_acme ''/host-srv/apps/acme/.env''
     = Some (EnvFile ''acme'' ''Acme Corp'' ''pw1'' ''sk_ship_1'' 1772000000000)"
proof -
  have m: "map_of (instances (deployments w_acme)) ''acme'' = Some inst_acme"
    by (simp add: w_acme_def)
  have f: "files w_acme ''/host-srv/apps/acme/.env''
     = Some (EnvFile ''acme'' ''Acme Corp'' ''pw1'' ''sk_ship_1'' 1772000000000)"
    by (simp add: w_acme_def)
  show ?thesis
    using provision_conflict [of w_acme "''acme''" inst_acme ev0 "''Acme Two''" None None]
      m f slug_acme
    by simp
qed

text \<open>
  Claim C8 fails on the code. The server refuses every one-character name, on the REST
  route and in the tool schema alike, while the command-line client, which validates
  the name before it calls the server, accepts the one-character name \<open>a\<close>.
\<close>

theorem single_char_name_refused:
  "post_instances ev (Some [c]) (Some (d # ds)) apiKey pgImage w
     = (Http400 ''Invalid name format'', w)
   \<and> app_create ev [c] displayName apiKey pgImage w = (None, w)
   \<and> cli_valid_project_name ''a''"
  by (simp add: post_instances_def app_create_def truthy_def slug_re_def single_re_def
      cli_valid_project_name_def alnum_def)

theorem single_char_name_refused_witness:
  "post_instances ev0 (Some ''a'') (Some ''A'') None None w_acme
     = (Http400 ''Invalid name format'', w_acme)
   \<and> app_create ev0 ''a'' ''A'' None None w_acme = (None, w_acme)
   \<and> cli_valid_project_name ''a''"
  using single_char_name_refused [of ev0 "CHR ''a''" "CHR ''A''" "[]" None None w_acme "''A''"]
  by simp

subsection \<open>Retention\<close>

lemma set_set_add: "set (set_add x s) = insert x (set s)"
  by (auto simp: set_add_def)

lemma set_fold_set_add:
  "set (fold (\<lambda>b acc. set_add (f b) acc) bs s) = set s \<union> f ` set bs"
  by (induction bs arbitrary: s) (auto simp: set_set_add)

lemma set_keep_windows:
  "set (keep_windows len n t sb s) =
     set s \<union> {tag b | b k. k < n \<and> find (in_window len t k) sb = Some b}"
proof (induction n)
  case 0
  then show ?case by (simp add: keep_windows_def)
next
  case (Suc n)
  have step: "keep_windows len (Suc n) t sb s =
      (case find (in_window len t n) sb of
         None \<Rightarrow> keep_windows len n t sb s
       | Some b \<Rightarrow> set_add (tag b) (keep_windows len n t sb s))"
    by (simp add: keep_windows_def split: option.splits)
  show ?case
  proof (cases "find (in_window len t n) sb")
    case None
    then show ?thesis using Suc step by (auto simp: less_Suc_eq)
  next
    case (Some b)
    then show ?thesis using Suc step by (auto simp: less_Suc_eq set_set_add)
  qed
qed

lemma set_tagsToKeep:
  "set (tagsToKeep t h) =
     {''latest'', ''rollback'', ''pre-rollback''}
     \<union> tag ` set (take 3 (successfulBuilds h))
     \<union> {tag b | b k. k < 4 \<and> find (in_window ONE_WEEK t k) (successfulBuilds h) = Some b}
     \<union> {tag b | b k. k < 3 \<and> find (in_window ONE_MONTH t k) (successfulBuilds h) = Some b}"
  by (simp add: tagsToKeep_def Let_def set_keep_windows set_fold_set_add Un_assoc)

lemma keys_delete: "fst ` set (AList.delete k al) = fst ` set al - {k}"
  by (induction al) auto

lemma exec_rmi_cases:
  "faults ev (DockerRmi t) = None \<Longrightarrow> t \<in> fst ` set (images w) \<Longrightarrow>
     success (fst (exec ev (DockerRmi t) w))
     \<and> images (snd (exec ev (DockerRmi t) w)) = AList.delete t (images w)
     \<and> untagged (snd (exec ev (DockerRmi t) w)) = untagged w"
  "faults ev (DockerRmi t) = None \<Longrightarrow> t \<notin> fst ` set (images w) \<Longrightarrow>
     \<not> success (fst (exec ev (DockerRmi t) w))
     \<and> images (snd (exec ev (DockerRmi t) w)) = images w
     \<and> untagged (snd (exec ev (DockerRmi t) w)) = untagged w"
  "faults ev (DockerRmi t) \<noteq> None \<Longrightarrow>
     \<not> success (fst (exec ev (DockerRmi t) w))
     \<and> images (snd (exec ev (DockerRmi t) w)) = images w
     \<and> untagged (snd (exec ev (DockerRmi t) w)) = untagged w"
proof -
  show "faults ev (DockerRmi t) = None \<Longrightarrow> t \<in> fst ` set (images w) \<Longrightarrow>
     success (fst (exec ev (DockerRmi t) w))
     \<and> images (snd (exec ev (DockerRmi t) w)) = AList.delete t (images w)
     \<and> untagged (snd (exec ev (DockerRmi t) w)) = untagged w"
    using map_of_eq_None_iff [of "images w" t]
    by (auto simp: exec_def Let_def ok_def split: option.splits)
  show "faults ev (DockerRmi t) = None \<Longrightarrow> t \<notin> fst ` set (images w) \<Longrightarrow>
     \<not> success (fst (exec ev (DockerRmi t) w))
     \<and> images (snd (exec ev (DockerRmi t) w)) = images w
     \<and> untagged (snd (exec ev (DockerRmi t) w)) = untagged w"
    using map_of_eq_None_iff [of "images w" t]
    by (auto simp: exec_def Let_def failed_def split: option.splits)
  show "faults ev (DockerRmi t) \<noteq> None \<Longrightarrow>
     \<not> success (fst (exec ev (DockerRmi t) w))
     \<and> images (snd (exec ev (DockerRmi t) w)) = images w
     \<and> untagged (snd (exec ev (DockerRmi t) w)) = untagged w"
    by (auto simp: exec_def Let_def failed_def split: option.splits)
qed

lemma remove_loop_effect:
  assumes "\<forall>t \<in> set ts. t \<noteq> ''<none>'' \<and> t \<notin> set keep \<longrightarrow>
             t \<in> fst ` set (images w) \<or> t \<in> set rm"
  shows "set (fst (remove_loop ev keep ts rm w)) =
           set rm \<union> {t \<in> set ts. t \<noteq> ''<none>'' \<and> t \<notin> set keep
                                 \<and> faults ev (DockerRmi t) = None}
    \<and> fst ` set (images (snd (remove_loop ev keep ts rm w))) =
         fst ` set (images w) - {t \<in> set ts. t \<noteq> ''<none>'' \<and> t \<notin> set keep
                                 \<and> faults ev (DockerRmi t) = None}
    \<and> untagged (snd (remove_loop ev keep ts rm w)) = untagged w"
  using assms
proof (induction ts arbitrary: rm w)
  case Nil
  then show ?case by simp
next
  case (Cons t ts)
  show ?case
  proof (cases "t = ''<none>'' \<or> t \<in> set keep")
    case True
    have "\<forall>u \<in> set ts. u \<noteq> ''<none>'' \<and> u \<notin> set keep \<longrightarrow>
             u \<in> fst ` set (images w) \<or> u \<in> set rm"
      using Cons.prems by simp
    from Cons.IH [OF this] True show ?thesis by auto
  next
    case False
    obtain r w1 where e: "exec ev (DockerRmi t) w = (r, w1)" by force
    define rm1 where "rm1 = (if success r then rm @ [t] else rm)"
    have step: "remove_loop ev keep (t # ts) rm w = remove_loop ev keep ts rm1 w1"
      using False e by (simp add: rm1_def)
    have here: "t \<in> fst ` set (images w) \<or> t \<in> set rm"
      using Cons.prems False by simp
    consider (fault) "faults ev (DockerRmi t) \<noteq> None"
      | (gone) "faults ev (DockerRmi t) = None" "t \<notin> fst ` set (images w)"
      | (hit) "faults ev (DockerRmi t) = None" "t \<in> fst ` set (images w)"
      by blast
    then show ?thesis
    proof cases
      case fault
      then have f: "rm1 = rm" "images w1 = images w" "untagged w1 = untagged w"
        using exec_rmi_cases(3) [of ev t w] e by (simp_all add: rm1_def)
      have "\<forall>u \<in> set ts. u \<noteq> ''<none>'' \<and> u \<notin> set keep \<longrightarrow>
             u \<in> fst ` set (images w1) \<or> u \<in> set rm1"
        using Cons.prems f by simp
      from Cons.IH [OF this] show ?thesis
        unfolding step using f fault False by auto
    next
      case gone
      then have f: "rm1 = rm" "images w1 = images w" "untagged w1 = untagged w"
        using exec_rmi_cases(2) [of ev t w] e by (simp_all add: rm1_def)
      have trm: "t \<in> set rm" using here gone by simp
      have "\<forall>u \<in> set ts. u \<noteq> ''<none>'' \<and> u \<notin> set keep \<longrightarrow>
             u \<in> fst ` set (images w1) \<or> u \<in> set rm1"
        using Cons.prems f by simp
      from Cons.IH [OF this] show ?thesis
        unfolding step using f gone trm False by auto
    next
      case hit
      then have f: "rm1 = rm @ [t]" "images w1 = AList.delete t (images w)"
          "untagged w1 = untagged w"
        using exec_rmi_cases(1) [of ev t w] e by (simp_all add: rm1_def)
      have "\<forall>u \<in> set ts. u \<noteq> ''<none>'' \<and> u \<notin> set keep \<longrightarrow>
             u \<in> fst ` set (images w1) \<or> u \<in> set rm1"
        using Cons.prems f by (auto simp: keys_delete)
      from Cons.IH [OF this] show ?thesis
        unfolding step using f hit False by (auto simp: keys_delete)
    qed
  qed
qed

lemma exec_images_listing:
  "exec ev DockerImages w =
     (if faults ev DockerImages = None
      then ok (map fst (images w) @ replicate (untagged w) ''<none>'')
      else failed (the (faults ev DockerImages)),
      w\<lparr>cmdlog := cmdlog w @ [DockerImages]\<rparr>)"
  by (auto simp: exec_def Let_def split: option.splits)

lemma listed_tags_eq:
  "listed_tags ev w =
     (if faults ev DockerImages = None
      then filter (\<lambda>l. l \<noteq> []) (map fst (images w) @ replicate (untagged w) ''<none>'')
      else [])"
  by (simp add: listed_tags_def exec_images_listing all_tags_of_def ok_def failed_def)

lemma listed_tags_present:
  "t \<in> set (listed_tags ev w) \<Longrightarrow> t \<noteq> ''<none>'' \<Longrightarrow> t \<in> fst ` set (images w)"
  by (auto simp: listed_tags_eq split: if_splits)

lemma cleanup_unfold:
  "cleanupBuildImages ev w =
     (\<lparr>kept = filter (\<lambda>t. t \<in> set (listed_tags ev w)) (tagsToKeep (now ev) (builds w)),
       removed = fst (remove_loop ev (tagsToKeep (now ev) (builds w)) (listed_tags ev w) []
                       (w\<lparr>cmdlog := cmdlog w @ [DockerImages]\<rparr>)),
       total_tags_before = length (listed_tags ev w),
       total_tags_after = length (listed_tags ev w)
         - length (fst (remove_loop ev (tagsToKeep (now ev) (builds w)) (listed_tags ev w) []
                          (w\<lparr>cmdlog := cmdlog w @ [DockerImages]\<rparr>)))\<rparr>,
      snd (remove_loop ev (tagsToKeep (now ev) (builds w)) (listed_tags ev w) []
             (w\<lparr>cmdlog := cmdlog w @ [DockerImages]\<rparr>)))"
  by (simp add: cleanupBuildImages_def Let_def listed_tags_def exec_images_listing
      case_prod_beta)

text \<open>
  Claim C3, as amended. The keep-set of a sweep at clock time \<open>now\<close> is exactly: the
  three sentinel tags; the tags of the first three successful non-rollback builds of
  the (newest-first) history; for each of the four consecutive 7-day windows counted back
  from \<open>now\<close>, the tag of the first such build of the history whose timestamp lies in
  the window, if any; and the same for each of the three consecutive 30-day windows. The
  windows are counted from the clock, not aligned to calendar weeks or months. The sweep
  runs one removal for every listed tag other than \<open><none>\<close> outside the keep-set, in
  listing order; \<open>removed\<close> holds those whose removal did not fail, exactly these tags
  leave the runtime, \<open>kept\<close> is the keep-set restricted to the listed tags, and the
  history is not changed.
\<close>

theorem retention_sweep:
  "set (tagsToKeep (now ev) (builds w)) =
     {''latest'', ''rollback'', ''pre-rollback''}
     \<union> tag ` set (take 3 (successfulBuilds (builds w)))
     \<union> {tag b | b k. k < 4
            \<and> find (in_window ONE_WEEK (now ev) k) (successfulBuilds (builds w)) = Some b}
     \<union> {tag b | b k. k < 3
            \<and> find (in_window ONE_MONTH (now ev) k) (successfulBuilds (builds w)) = Some b}
   \<and> cmdlog (snd (cleanupBuildImages ev w)) =
       cmdlog w @ DockerImages #
         map DockerRmi (filter (\<lambda>t. t \<noteq> ''<none>'' \<and> t \<notin> set (tagsToKeep (now ev) (builds w)))
                          (listed_tags ev w))
   \<and> set (removed (fst (cleanupBuildImages ev w))) =
       {t \<in> set (listed_tags ev w). t \<noteq> ''<none>''
            \<and> t \<notin> set (tagsToKeep (now ev) (builds w))
            \<and> faults ev (DockerRmi t) = None}
   \<and> fst ` set (images (snd (cleanupBuildImages ev w))) =
       fst ` set (images w) - set (removed (fst (cleanupBuildImages ev w)))
   \<and> kept (fst (cleanupBuildImages ev w)) =
       filter (\<lambda>t. t \<in> set (listed_tags ev w)) (tagsToKeep (now ev) (builds w))
   \<and> builds (snd (cleanupBuildImages ev w)) = builds w"
proof -
  define keep where "keep = tagsToKeep (now ev) (builds w)"
  define w1 where "w1 = w\<lparr>cmdlog := cmdlog w @ [DockerImages]\<rparr>"
  have pre: "\<forall>t \<in> set (listed_tags ev w). t \<noteq> ''<none>'' \<and> t \<notin> set keep \<longrightarrow>
      t \<in> fst ` set (images w1) \<or> t \<in> set []"
    using listed_tags_present [of _ ev w] by (simp add: w1_def)
  note eff = remove_loop_effect [OF pre, of ev]
  note fr = remove_loop_frame [of ev keep "listed_tags ev w" "[]" w1]
  have cu: "cleanupBuildImages ev w =
     (\<lparr>kept = filter (\<lambda>t. t \<in> set (listed_tags ev w)) keep,
       removed = fst (remove_loop ev keep (listed_tags ev w) [] w1),
       total_tags_before = length (listed_tags ev w),
       total_tags_after = length (listed_tags ev w)
         - length (fst (remove_loop ev keep (listed_tags ev w) [] w1))\<rparr>,
      snd (remove_loop ev keep (listed_tags ev w) [] w1))"
    by (simp add: cleanup_unfold keep_def w1_def)
  have 1: "cmdlog (snd (cleanupBuildImages ev w)) =
       cmdlog w @ DockerImages #
         map DockerRmi (filter (\<lambda>t. t \<noteq> ''<none>'' \<and> t \<notin> set keep) (listed_tags ev w))"
    using fr by (simp add: cu w1_def)
  have 2: "set (removed (fst (cleanupBuildImages ev w))) =
       {t \<in> set (listed_tags ev w). t \<noteq> ''<none>'' \<and> t \<notin> set keep
            \<and> faults ev (DockerRmi t) = None}"
    using eff by (simp add: cu)
  have 3: "fst ` set (images (snd (cleanupBuildImages ev w))) =
       fst ` set (images w) - set (removed (fst (cleanupBuildImages ev w)))"
    using eff by (simp add: cu w1_def)
  have 4: "kept (fst (cleanupBuildImages ev w)) =
       filter (\<lambda>t. t \<in> set (listed_tags ev w)) keep"
    by (simp add: cu)
  have 5: "builds (snd (cleanupBuildImages ev w)) = builds w"
    using cleanup_frame [of ev w] by simp
  show ?thesis
    using 1 2 3 4 5 set_tagsToKeep [of "now ev" "builds w"]
    unfolding keep_def by blast
qed

theorem retention_sweep_witness:
  "cmdlog (snd (cleanupBuildImages ev0 w_hist)) = [DockerImages, DockerRmi ''20251201-000000'']
   \<and> set (removed (fst (cleanupBuildImages ev0 w_hist))) = {''20251201-000000''}
   \<and> kept (fst (cleanupBuildImages ev0 w_hist))
       = [''latest'', ''20260316-110000'', ''20260116-000000'', ''20260115-000000'']"
proof -
  have k: "tagsToKeep (now ev0) (builds w_hist) =
      [''latest'', ''rollback'', ''pre-rollback'', ''20260316-110000'', ''20260315-110000'',
       ''20260314-110000'', ''20260116-000000'', ''20260115-000000'']"
    by code_simp
  have l: "listed_tags ev0 w_hist =
      [''latest'', ''20260316-110000'', ''20260116-000000'', ''20260115-000000'',
       ''20251201-000000'']"
    by code_simp
  have c: "cmdlog w_hist = []" by code_simp
  have f: "faults ev0 (DockerRmi ''20251201-000000'') = None"
    by (simp add: ev0_def no_faults_def)
  have "cmdlog (snd (cleanupBuildImages ev0 w_hist)) =
       cmdlog w_hist @ DockerImages #
         map DockerRmi (filter (\<lambda>t. t \<noteq> ''<none>'' \<and> t \<notin> set (tagsToKeep (now ev0) (builds w_hist)))
                          (listed_tags ev0 w_hist))"
    and "set (removed (fst (cleanupBuildImages ev0 w_hist))) =
       {t \<in> set (listed_tags ev0 w_hist). t \<noteq> ''<none>''
            \<and> t \<notin> set (tagsToKeep (now ev0) (builds w_hist))
            \<and> faults ev0 (DockerRmi t) = None}"
    and "kept (fst (cleanupBuildImages ev0 w_hist)) =
       filter (\<lambda>t. t \<in> set (listed_tags ev0 w_hist)) (tagsToKeep (now ev0) (builds w_hist))"
    using retention_sweep [of ev0 w_hist] by blast+
  then show ?thesis
    unfolding k l c using f by auto
qed

text \<open>
  The claim C3 as stated fails. With the clock at 16 March 2026, 12:00 UTC, the builds
  of 16 and 15 January 2026 are both kept: one is the first build of the second 30-day
  window, the other of the third. They are not among the three most recent builds, they
  are more than eight weeks old, and they lie in the same calendar month, of which the
  claim keeps at most one.
\<close>

theorem rolling_windows_counterexample:
  "''20260116-000000'' \<in> set (tagsToKeep 1773662400000 history5)
   \<and> ''20260115-000000'' \<in> set (tagsToKeep 1773662400000 history5)
   \<and> calendar_month 1768521600000 = (2026, 1)
   \<and> calendar_month 1768435200000 = (2026, 1)
   \<and> map tag (take 3 (successfulBuilds history5))
       = [''20260316-110000'', ''20260315-110000'', ''20260314-110000'']
   \<and> map timestamp (drop 3 (successfulBuilds history5)) = [1768521600000, 1768435200000]
   \<and> 1773662400000 - 1768521600000 > 8 * ONE_WEEK
   \<and> removed (fst (cleanupBuildImages ev0 w_hist)) = [''20251201-000000'']
   \<and> kept (fst (cleanupBuildImages ev0 w_hist))
       = [''latest'', ''20260316-110000'', ''20260116-000000'', ''20260115-000000'']"
  by code_simp

lemma remove_loop_all_fail:
  assumes "\<forall>t \<in> set ts. t = ''<none>'' \<or> t \<in> set keep \<or> faults ev (DockerRmi t) \<noteq> None"
  shows "fst (remove_loop ev keep ts rm w) = rm
    \<and> images (snd (remove_loop ev keep ts rm w)) = images w"
  using assms
proof (induction ts arbitrary: w)
  case Nil
  then show ?case by simp
next
  case (Cons t ts)
  have rest: "\<forall>u \<in> set ts. u = ''<none>'' \<or> u \<in> set keep \<or> faults ev (DockerRmi u) \<noteq> None"
    using Cons.prems by simp
  show ?case
  proof (cases "t = ''<none>'' \<or> t \<in> set keep")
    case True
    then show ?thesis using Cons.IH [OF rest, of w] by simp
  next
    case False
    then have f: "faults ev (DockerRmi t) \<noteq> None" using Cons.prems by simp
    obtain r w1 where e: "exec ev (DockerRmi t) w = (r, w1)" by force
    have "\<not> success r" "images w1 = images w"
      using exec_rmi_cases(3) [OF f, of w] e by simp_all
    then show ?thesis using False e Cons.IH [OF rest, of w1] by simp
  qed
qed

lemma second_sweep_idle:
  assumes clock: "now ev2 = now ev1"
    and listing: "faults ev1 DockerImages = None \<longleftrightarrow> faults ev2 DockerImages = None"
    and persist: "\<forall>t. faults ev1 (DockerRmi t) \<noteq> None \<longrightarrow> faults ev2 (DockerRmi t) \<noteq> None"
  shows "removed (fst (cleanupBuildImages ev2 (snd (cleanupBuildImages ev1 w)))) = []
    \<and> kept (fst (cleanupBuildImages ev2 (snd (cleanupBuildImages ev1 w))))
        = kept (fst (cleanupBuildImages ev1 w))"
proof -
  define keep where "keep = tagsToKeep (now ev1) (builds w)"
  define w0 where "w0 = w\<lparr>cmdlog := cmdlog w @ [DockerImages]\<rparr>"
  define w1 where "w1 = snd (cleanupBuildImages ev1 w)"
  define R where "R = {t \<in> set (listed_tags ev1 w). t \<noteq> ''<none>'' \<and> t \<notin> set keep
                          \<and> faults ev1 (DockerRmi t) = None}"
  have pre: "\<forall>t \<in> set (listed_tags ev1 w). t \<noteq> ''<none>'' \<and> t \<notin> set keep \<longrightarrow>
      t \<in> fst ` set (images w0) \<or> t \<in> set []"
    using listed_tags_present [of _ ev1 w] by (simp add: w0_def)
  note eff = remove_loop_effect [OF pre, of ev1]
  have w1_eq: "w1 = snd (remove_loop ev1 keep (listed_tags ev1 w) [] w0)"
    by (simp add: w1_def cleanup_unfold keep_def w0_def)
  have keys1: "fst ` set (images w1) = fst ` set (images w) - R"
    using eff by (simp add: w1_eq w0_def R_def)
  have unt1: "untagged w1 = untagged w"
    using eff by (simp add: w1_eq w0_def)
  have b1: "builds w1 = builds w"
    using cleanup_frame [of ev1 w] by (simp add: w1_def)
  have keep2: "tagsToKeep (now ev2) (builds w1) = keep"
    using clock b1 by (simp add: keep_def)
  show ?thesis
  proof (cases "faults ev1 DockerImages = None")
    case False
    then have "faults ev2 DockerImages \<noteq> None" using listing by simp
    with False have "listed_tags ev1 w = []" "listed_tags ev2 w1 = []"
      unfolding listed_tags_eq by auto
    then have "removed (fst (cleanupBuildImages ev2 w1)) = []"
        "kept (fst (cleanupBuildImages ev2 w1)) = []"
        "kept (fst (cleanupBuildImages ev1 w)) = []"
      by (simp_all add: cleanup_unfold [of ev2 w1] cleanup_unfold [of ev1 w])
    then show ?thesis by (simp add: w1_def)
  next
    case True
    then have list2: "faults ev2 DockerImages = None" using listing by simp
    have l1: "set (listed_tags ev1 w) =
        {k \<in> fst ` set (images w). k \<noteq> []} \<union> (if untagged w = 0 then {} else {''<none>''})"
      using True by (auto simp: listed_tags_eq)
    have l2: "set (listed_tags ev2 w1) =
        {k \<in> fst ` set (images w1). k \<noteq> []} \<union> (if untagged w1 = 0 then {} else {''<none>''})"
      using list2 by (auto simp: listed_tags_eq)
    have sub: "set (listed_tags ev2 w1) = set (listed_tags ev1 w) - R"
      unfolding l1 l2 keys1 unt1 by (auto simp: R_def)
    have idle: "\<forall>t \<in> set (listed_tags ev2 w1).
        t = ''<none>'' \<or> t \<in> set keep \<or> faults ev2 (DockerRmi t) \<noteq> None"
      unfolding sub using persist by (auto simp: R_def)
    have r2: "removed (fst (cleanupBuildImages ev2 w1)) = []"
      using remove_loop_all_fail [OF idle, of "[]"] by (simp add: cleanup_unfold keep2)
    have "filter (\<lambda>t. t \<in> set (listed_tags ev2 w1)) keep
        = filter (\<lambda>t. t \<in> set (listed_tags ev1 w)) keep"
      unfolding sub by (rule filter_cong) (auto simp: R_def)
    then have k2: "kept (fst (cleanupBuildImages ev2 w1)) = kept (fst (cleanupBuildImages ev1 w))"
      by (simp add: cleanup_unfold keep2 keep_def)
    show ?thesis using r2 k2 by (simp add: w1_def)
  qed
qed

text \<open>
  Claim C4. A second sweep on the host the first sweep has left, with the same clock
  and the same environment (the removals that fail, and whether the listing fails, are
  those of the first sweep; a sweep never changes the history), removes nothing, and its
  \<open>kept\<close> list is the first sweep's. The tags the first sweep could not remove are
  tried again and fail again. \<open>second_sweep_idle\<close> is the same statement for two
  environments in which the failures of the first sweep persist in the second.
\<close>

theorem retention_idempotent:
  "removed (fst (cleanupBuildImages ev (snd (cleanupBuildImages ev w)))) = []
   \<and> kept (fst (cleanupBuildImages ev (snd (cleanupBuildImages ev w))))
       = kept (fst (cleanupBuildImages ev w))"
  by (rule second_sweep_idle) simp_all

theorem retention_idempotent_witness:
  "removed (fst (cleanupBuildImages ev_rmi_fails (snd (cleanupBuildImages ev_rmi_fails w_hist)))) = []
   \<and> kept (fst (cleanupBuildImages ev_rmi_fails (snd (cleanupBuildImages ev_rmi_fails w_hist))))
       = [''latest'', ''20260316-110000'', ''20260116-000000'', ''20260115-000000'']
   \<and> removed (fst (cleanupBuildImages ev0 (snd (cleanupBuildImages ev0 w_hist)))) = []"
proof -
  have k: "kept (fst (cleanupBuildImages ev_rmi_fails w_hist))
       = [''latest'', ''20260316-110000'', ''20260116-000000'', ''20260115-000000'']"
    by code_simp
  show ?thesis
    using retention_idempotent [of ev_rmi_fails w_hist] retention_idempotent [of ev0 w_hist] k
    by simp
qed

end
